theory Spec2Isabelle
  imports Complex_Main
begin

section \<open>Countdown display (src/components/CountdownTimer.tsx)\<close>

text \<open>
  The component state \<open>timeLeft\<close>, together with whether the one-second interval is
  still installed. \<open>TARGET_DATE\<close> comes from the constants module, which is not part of the
  sources at hand; it is a parameter here, a timestamp in whole milliseconds, as is the
  clock reading \<open>new Date().getTime()\<close>.
\<close>

record TimeLeft =
  days :: int
  hours :: int
  minutes :: int
  seconds :: int

record CountdownState =
  timeLeft :: TimeLeft
  interval_active :: bool

text \<open>
  The object passed to \<open>setTimeLeft\<close>. The callback only reaches it with \<open>distance \<ge> 0\<close>,
  where JavaScript's \<open>%\<close> and \<open>Math.floor(_ / _)\<close> on integers below \<open>2^53\<close> are \<open>mod\<close>
  and \<open>div\<close>.
\<close>

definition decompose :: "int \<Rightarrow> TimeLeft" where
  "decompose distance =
     \<lparr> days = distance div (1000 * 60 * 60 * 24),
       hours = (distance mod (1000 * 60 * 60 * 24)) div (1000 * 60 * 60),
       minutes = (distance mod (1000 * 60 * 60)) div (1000 * 60),
       seconds = (distance mod (1000 * 60)) div 1000 \<rparr>"

text \<open>The initial state of the component: all zero, interval installed by the effect.\<close>

definition countdown_init :: CountdownState where
  "countdown_init =
     \<lparr> timeLeft = \<lparr> days = 0, hours = 0, minutes = 0, seconds = 0 \<rparr>,
       interval_active = True \<rparr>"

text \<open>One run of the interval callback at clock reading \<open>now\<close>.\<close>

definition interval_tick :: "int \<Rightarrow> int \<Rightarrow> CountdownState \<Rightarrow> CountdownState" where
  "interval_tick TARGET_DATE now st =
     (let distance = TARGET_DATE - now in
      if distance < 0 then st\<lparr> interval_active := False \<rparr>
      else st\<lparr> timeLeft := decompose distance \<rparr>)"


section \<open>Data model (src/types.ts)\<close>

text \<open>
  The types of \<open>types.ts\<close>, as the objects exist at run time. A \<open>TeamMemberNote\<close> built
  by \<open>updateMemberNote\<close> from a missing member has only the properties of the update, so
  each property is optional here: \<open>None\<close> is an absent property. The vote
  \<open>'up' | 'down' | null\<close> is a \<open>vote option\<close>, with \<open>None\<close> for \<open>null\<close>.
  \<open>Record<string, TeamMemberNote>\<close> is a map from member names.
\<close>

datatype vote = Up | Down

record TeamMemberNote =
  name :: "string option"
  note' :: "string option"
  vote :: "vote option option"

record DressEntry =
  id' :: string
  location :: string
  price :: string
  image' :: "string option"
  teamNotes :: "string \<rightharpoonup> TeamMemberNote"

record SyncData =
  entries' :: "DressEntry list"
  lastUpdated :: int

text \<open>\<open>Partial<DressEntry>\<close> and \<open>Partial<{note, vote}>\<close>: every property may be missing.\<close>

record DressEntryPartial =
  p_id :: "string option"
  p_location :: "string option"
  p_price :: "string option"
  p_image :: "string option option"
  p_teamNotes :: "(string \<rightharpoonup> TeamMemberNote) option"

record NotePartial =
  p_note :: "string option"
  p_vote :: "vote option option"


section \<open>Entry store (the \<open>setEntries\<close> updaters of both App variants)\<close>

text \<open>
  The repository holds two variants of the App component, \<open>src/unnamed/part_000\<close> and
  \<open>src/unnamed/part_001\<close>. The updaters below are the functions passed to \<open>setEntries\<close>;
  they are the same in both variants except for \<open>addNewDress\<close>.
\<close>

datatype variant = Part000 | Part001

text \<open>The object spread \<open>{ ...e, ...updates }\<close>.\<close>

definition spread_entry :: "DressEntry \<Rightarrow> DressEntryPartial \<Rightarrow> DressEntry" where
  "spread_entry e updates =
     \<lparr> id' = (case p_id updates of None \<Rightarrow> id' e | Some v \<Rightarrow> v),
       location = (case p_location updates of None \<Rightarrow> location e | Some v \<Rightarrow> v),
       price = (case p_price updates of None \<Rightarrow> price e | Some v \<Rightarrow> v),
       image' = (case p_image updates of None \<Rightarrow> image' e | Some v \<Rightarrow> v),
       teamNotes = (case p_teamNotes updates of None \<Rightarrow> teamNotes e | Some v \<Rightarrow> v) \<rparr>"

definition updateEntry :: "string \<Rightarrow> DressEntryPartial \<Rightarrow> DressEntry list \<Rightarrow> DressEntry list" where
  "updateEntry ident updates prev =
     map (\<lambda>e. if id' e = ident then spread_entry e updates else e) prev"

text \<open>
  The object spread \<open>{ ...memberNote, ...updates }\<close>, where \<open>memberNote\<close> is
  \<open>e.teamNotes[memberName]\<close> and so \<open>undefined\<close> for a missing member; spreading
  \<open>undefined\<close> contributes no property.
\<close>

definition spread_note :: "TeamMemberNote option \<Rightarrow> NotePartial \<Rightarrow> TeamMemberNote" where
  "spread_note memberNote updates =
     (let base = (case memberNote of
                    None \<Rightarrow> \<lparr> name = None, note' = None, vote = None \<rparr>
                  | Some n \<Rightarrow> n)
      in \<lparr> name = name base,
           note' = (case p_note updates of None \<Rightarrow> note' base | Some v \<Rightarrow> Some v),
           vote = (case p_vote updates of None \<Rightarrow> vote base | Some v \<Rightarrow> Some v) \<rparr>)"

definition updateMemberNote ::
  "string \<Rightarrow> string \<Rightarrow> NotePartial \<Rightarrow> DressEntry list \<Rightarrow> DressEntry list" where
  "updateMemberNote entryId memberName updates prev =
     map (\<lambda>e. if id' e = entryId
              then e\<lparr> teamNotes :=
                       (teamNotes e)(memberName \<mapsto> spread_note (teamNotes e memberName) updates) \<rparr>
              else e) prev"

text \<open>
  \<open>TEAM_MEMBERS.reduce((acc, name) => ({ ...acc, [name]: { name, note: '', vote: null } }), {})\<close>.
  \<open>TEAM_MEMBERS\<close> is defined in the constants module, which is not among the sources; it
  is a parameter.
\<close>

definition emptyNotes :: "string list \<Rightarrow> (string \<rightharpoonup> TeamMemberNote)" where
  "emptyNotes TEAM_MEMBERS =
     foldl (\<lambda>acc nm. acc(nm \<mapsto> \<lparr> name = Some nm, note' = Some [], vote = Some None \<rparr>))
       Map.empty TEAM_MEMBERS"

text \<open>The entry literal of \<open>addNewDress\<close> and of the initial load; \<open>uuid\<close> is the value of
  \<open>crypto.randomUUID()\<close>.\<close>

definition newEntry :: "string list \<Rightarrow> string \<Rightarrow> DressEntry" where
  "newEntry TEAM_MEMBERS uuid =
     \<lparr> id' = uuid, location = [], price = [], image' = None,
       teamNotes = emptyNotes TEAM_MEMBERS \<rparr>"

text \<open>\<open>part_000\<close> appends (\<open>[...prev, newEntry]\<close>), \<open>part_001\<close> prepends (\<open>[newEntry, ...prev]\<close>).\<close>

definition addNewDress :: "variant \<Rightarrow> string list \<Rightarrow> string \<Rightarrow> DressEntry list \<Rightarrow> DressEntry list" where
  "addNewDress v TEAM_MEMBERS uuid prev =
     (case v of
        Part000 \<Rightarrow> prev @ [newEntry TEAM_MEMBERS uuid]
      | Part001 \<Rightarrow> newEntry TEAM_MEMBERS uuid # prev)"

text \<open>\<open>removeDress\<close> (inline in \<open>part_001\<close>); \<open>confirmed\<close> is the answer of \<open>confirm(...)\<close>.\<close>

definition removeDress :: "bool \<Rightarrow> string \<Rightarrow> DressEntry list \<Rightarrow> DressEntry list" where
  "removeDress confirmed ident prev =
     (if confirmed then filter (\<lambda>e. id' e \<noteq> ident) prev else prev)"

text \<open>The four operations of the store as data, and a run of a sequence of them.\<close>

datatype store_op =
    Create string
  | UpdateFields string DressEntryPartial
  | UpdateNote string string NotePartial
  | Remove bool string

fun apply_op :: "variant \<Rightarrow> string list \<Rightarrow> DressEntry list \<Rightarrow> store_op \<Rightarrow> DressEntry list" where
  "apply_op v TEAM_MEMBERS prev (Create uuid) = addNewDress v TEAM_MEMBERS uuid prev"
| "apply_op v TEAM_MEMBERS prev (UpdateFields ident updates) = updateEntry ident updates prev"
| "apply_op v TEAM_MEMBERS prev (UpdateNote entryId memberName updates) =
     updateMemberNote entryId memberName updates prev"
| "apply_op v TEAM_MEMBERS prev (Remove confirmed ident) = removeDress confirmed ident prev"

definition run_ops :: "variant \<Rightarrow> string list \<Rightarrow> DressEntry list \<Rightarrow> store_op list \<Rightarrow> DressEntry list" where
  "run_ops v TEAM_MEMBERS es ops = foldl (apply_op v TEAM_MEMBERS) es ops"

text \<open>
  The roster invariant of an entry: its \<open>teamNotes\<close> has exactly the roster's names as keys,
  and the Note under each key carries that key as its \<open>name\<close>.
\<close>

definition notes_ok :: "string list \<Rightarrow> DressEntry \<Rightarrow> bool" where
  "notes_ok TEAM_MEMBERS e \<longleftrightarrow>
     dom (teamNotes e) = set TEAM_MEMBERS \<and>
     (\<forall>k \<in> set TEAM_MEMBERS. \<exists>n. teamNotes e k = Some n \<and> name n = Some k)"

definition all_notes_ok :: "string list \<Rightarrow> DressEntry list \<Rightarrow> bool" where
  "all_notes_ok TEAM_MEMBERS es \<longleftrightarrow> list_all (notes_ok TEAM_MEMBERS) es"


text \<open>
  The operations the page can issue: its handlers pass \<open>updateEntry\<close> only \<open>location\<close>,
  \<open>price\<close> or \<open>image\<close>, never a \<open>teamNotes\<close> object, and \<open>updateMemberNote\<close> only
  names drawn from \<open>TEAM_MEMBERS\<close>.
\<close>

fun roster_op :: "string list \<Rightarrow> store_op \<Rightarrow> bool" where
  "roster_op TEAM_MEMBERS (Create uuid) = True"
| "roster_op TEAM_MEMBERS (UpdateFields ident updates) = (p_teamNotes updates = None)"
| "roster_op TEAM_MEMBERS (UpdateNote entryId memberName updates) = (memberName \<in> set TEAM_MEMBERS)"
| "roster_op TEAM_MEMBERS (Remove confirmed ident) = True"


section \<open>Session state and the browser around it\<close>

text \<open>
  The React state of the App component. \<open>part_000\<close> has the first three variables only;
  its functions leave \<open>syncProgress\<close> and \<open>cloudStatus\<close> as they are.
\<close>

datatype cloudStatus = Idle | Loading | Success | Error

record AppState =
  entries :: "DressEntry list"
  isSyncing :: bool
  lastSyncTime :: "int option"
  syncProgress :: int
  cloudStatus :: cloudStatus

text \<open>The \<open>useState\<close> initial values.\<close>

definition initial_state :: AppState where
  "initial_state =
     \<lparr> entries = [], isSyncing = False, lastSyncTime = None, syncProgress = 0,
       cloudStatus = Idle \<rparr>"

text \<open>
  What a request to the content-generation endpoint carries: the ingredients of the text
  part (\<open>i + 1\<close>, \<open>entries.length\<close> and the object given to \<open>JSON.stringify\<close>) and the
  optional \<open>inlineData\<close> part. In \<open>r_inlineData\<close>, \<open>None\<close> is no image part and
  \<open>Some d\<close> an image part whose \<open>data\<close> is \<open>d\<close>, itself \<open>None\<close> when
  \<open>split(',')[1]\<close> is \<open>undefined\<close>.
\<close>

record request =
  r_number :: nat
  r_total :: nat
  r_id :: string
  r_location :: string
  r_price :: string
  r_notes :: "string \<rightharpoonup> TeamMemberNote"
  r_inlineData :: "string option option"

text \<open>
  The effects a session has on its surroundings, in the order they happen. The texts of the
  alerts are not ASCII; each alert is named after the place that raises it.
  \<open>GenerateContent req ok\<close> is one awaited call of \<open>ai.models.generateContent\<close> and
  whether it resolved (\<open>True\<close>) or rejected. \<open>SetItem\<close> is a write to the slot that the
  storage accepted; \<open>UncaughtError\<close> is an exception that left a timer callback and was
  reported by the browser.
\<close>

datatype alert = SyncedAlert | CloudSuccessAlert | CloudFailureAlert

datatype effect =
    SetItem string
  | SetSyncProgress int
  | GenerateContent request bool
  | ConsoleError
  | UncaughtError
  | DispatchStorageEvent
  | SetTimeoutIdle
  | Alert alert

text \<open>
  A session: the component state, the value of the slot \<open>localStorage[STORAGE_KEY]\<close>
  (\<open>None\<close> when \<open>getItem\<close> returns \<open>null\<close>) and the effects so far, oldest first.
\<close>

record Session =
  app :: AppState
  slot :: "string option"
  effects :: "effect list"

definition fresh_session :: "string option \<Rightarrow> Session" where
  "fresh_session stored = \<lparr> app = initial_state, slot = stored, effects = [] \<rparr>"

text \<open>
  \<open>JSON.parse\<close> is the platform's and a parameter of the functions below:
  \<open>JSON_parse s = None\<close> when it throws a SyntaxError. Of the value it returns the code
  reads the properties \<open>entries\<close> and \<open>lastUpdated\<close> only, and it checks neither.
  \<open>JNull\<close> is the value \<open>null\<close>, on which reading a property throws a TypeError;
  \<open>JValue es t\<close> is any other value, seen through its two properties.

  The property \<open>entries\<close> is \<open>Falsy\<close> when the value has no such property or holds
  a falsy value there (\<open>undefined\<close>, \<open>null\<close>, \<open>false\<close>, \<open>0\<close>, the empty text);
  \<open>EntryArray es\<close> when it is an array of entry objects; and \<open>Other\<close> when it is any
  other truthy value: a number or text, an object, an array of something else, or, when the
  parsed value is itself an array as for the text \<open>[]\<close>, the method
  \<open>Array.prototype.entries\<close>.

  The property \<open>lastUpdated\<close> is \<open>None\<close> when it is missing or \<open>null\<close>; where present
  it is taken to be a whole number of milliseconds, as the annotation \<open>parsed: SyncData\<close>
  says (the value only feeds the display of a time).
  \<open>JSON.stringify\<close> on a \<open>SyncData\<close> object is the parameter \<open>JSON_stringify\<close>.
\<close>

datatype entries_value = Falsy | Other | EntryArray "DressEntry list"

datatype parsed = JNull | JValue entries_value "int option"

text \<open>
  How the initial load or the storage listener ends: with an exception that nothing
  catches (\<open>Uncaught\<close>); with \<open>setEntries\<close> given a value that is no array of entries
  (\<open>NotEntries\<close>: the \<open>entries\<close> state no longer has its type, and the render that
  follows, which calls \<open>entries.map\<close>, is not part of the model); or normally.
\<close>

datatype outcome = Uncaught | NotEntries | Done Session


section \<open>Persistence bridge\<close>

text \<open>The initial-load effect of \<open>part_000\<close> (lines 12-32). \<open>if (saved)\<close> is false for
  \<open>null\<close> and for the empty string.\<close>

definition load_v0 :: "(string \<Rightarrow> parsed option) \<Rightarrow> string list \<Rightarrow> string \<Rightarrow> Session \<Rightarrow> outcome" where
  "load_v0 JSON_parse TEAM_MEMBERS uuid s =
     (let saved = slot s in
      if saved \<noteq> None \<and> saved \<noteq> Some [] then
        (case JSON_parse (the saved) of
           None \<Rightarrow> Uncaught
         | Some JNull \<Rightarrow> Uncaught
         | Some (JValue Falsy t) \<Rightarrow> NotEntries
         | Some (JValue Other t) \<Rightarrow> NotEntries
         | Some (JValue (EntryArray es) t) \<Rightarrow>
             Done (s\<lparr> app := (app s)\<lparr> entries := es, lastSyncTime := t \<rparr> \<rparr>))
      else Done (s\<lparr> app := (app s)\<lparr> entries := [newEntry TEAM_MEMBERS uuid] \<rparr> \<rparr>))"

text \<open>
  The initial-load effect of \<open>part_001\<close> (lines 18-29): the same read inside
  \<open>try { ... } catch\<close>, with \<open>parsed.entries || []\<close> and \<open>parsed.lastUpdated || null\<close>
  (the number 0 is falsy), and no \<open>else\<close> branch. The \<open>catch\<close> logs and goes on; a
  truthy \<open>entries\<close> of another type passes the \<open>try\<close> and reaches \<open>setEntries\<close>.
\<close>

definition load_v1 :: "(string \<Rightarrow> parsed option) \<Rightarrow> Session \<Rightarrow> outcome" where
  "load_v1 JSON_parse s =
     (let saved = slot s in
      if saved \<noteq> None \<and> saved \<noteq> Some [] then
        (case JSON_parse (the saved) of
           None \<Rightarrow> Done (s\<lparr> effects := effects s @ [ConsoleError] \<rparr>)
         | Some JNull \<Rightarrow> Done (s\<lparr> effects := effects s @ [ConsoleError] \<rparr>)
         | Some (JValue Other t) \<Rightarrow> NotEntries
         | Some (JValue es t) \<Rightarrow>
             Done (s\<lparr> app := (app s)\<lparr>
                  entries := (case es of EntryArray xs \<Rightarrow> xs | _ \<Rightarrow> []),
                  lastSyncTime := (case t of None \<Rightarrow> None
                                   | Some n \<Rightarrow> if n = 0 then None else Some n) \<rparr> \<rparr>))
      else Done s)"

text \<open>
  The storage listener of \<open>part_000\<close> (lines 35-45); \<open>part_001\<close> installs none. Of the
  event it reads \<open>key\<close> and \<open>newValue\<close>, each \<open>None\<close> when the event object has no such
  property or holds \<open>null\<close> there.
\<close>

record StorageEvent =
  key :: "string option"
  newValue :: "string option"

definition handleStorageChange ::
  "(string \<Rightarrow> parsed option) \<Rightarrow> string \<Rightarrow> StorageEvent \<Rightarrow> Session \<Rightarrow> outcome" where
  "handleStorageChange JSON_parse STORAGE_KEY e s =
     (if key e = Some STORAGE_KEY \<and> newValue e \<noteq> None \<and> newValue e \<noteq> Some [] then
        (case JSON_parse (the (newValue e)) of
           None \<Rightarrow> Uncaught
         | Some JNull \<Rightarrow> Uncaught
         | Some (JValue Falsy t) \<Rightarrow> NotEntries
         | Some (JValue Other t) \<Rightarrow> NotEntries
         | Some (JValue (EntryArray es) t) \<Rightarrow>
             Done (s\<lparr> app := (app s)\<lparr> entries := es, lastSyncTime := t \<rparr> \<rparr>))
      else Done s)"

text \<open>\<open>new Event('storage')\<close>: a plain event, with neither \<open>key\<close> nor \<open>newValue\<close>.\<close>

definition storage_signal :: StorageEvent where
  "storage_signal = \<lparr> key = None, newValue = None \<rparr>"

text \<open>
  \<open>saveToCloud\<close> of \<open>part_000\<close> (lines 47-65), up to the end of its timer callback.
  \<open>now\<close> is the value of \<open>Date.now()\<close>. \<open>localStorage.setItem\<close> throws a
  QuotaExceededError when the text does not fit the storage; \<open>quota_allows text\<close> tells
  whether it fits. Nothing catches the exception in the timer callback: the browser reports
  it (\<open>UncaughtError\<close>) and the rest of the callback does not run. \<open>dispatchEvent\<close> runs
  the session's own listener on the plain event before it returns; an exception of a
  listener does not reach the caller.
\<close>

definition saveToCloud_v0 ::
  "(SyncData \<Rightarrow> string) \<Rightarrow> (string \<Rightarrow> parsed option) \<Rightarrow> string \<Rightarrow> (string \<Rightarrow> bool) \<Rightarrow> int \<Rightarrow>
     Session \<Rightarrow> Session" where
  "saveToCloud_v0 JSON_stringify JSON_parse STORAGE_KEY quota_allows now s =
     (let syncData = \<lparr> entries' = entries (app s), lastUpdated = now \<rparr>;
          text = JSON_stringify syncData;
          s1 = s\<lparr> app := (app s)\<lparr> isSyncing := True \<rparr> \<rparr>
      in if quota_allows text then
           (let s2 = s1\<lparr> slot := Some text, effects := effects s1 @ [SetItem text] \<rparr>;
                s3 = s2\<lparr> app := (app s2)\<lparr> lastSyncTime := Some (lastUpdated syncData),
                                           isSyncing := False \<rparr>,
                         effects := effects s2 @ [DispatchStorageEvent] \<rparr>;
                s4 = (case handleStorageChange JSON_parse STORAGE_KEY storage_signal s3 of
                        Done s' \<Rightarrow> s' | _ \<Rightarrow> s3)
            in s4\<lparr> effects := effects s4 @ [Alert SyncedAlert] \<rparr>)
         else s1\<lparr> effects := effects s1 @ [UncaughtError] \<rparr>)"


section \<open>Remote mirror (\<open>saveToCloud\<close> of \<open>part_001\<close>, lines 58-113)\<close>

text \<open>\<open>entry.image.split(',')[1]\<close>: the text between the first and the second comma,
  \<open>undefined\<close> when there is no comma.\<close>

definition split_comma_1 :: "string \<Rightarrow> string option" where
  "split_comma_1 str =
     (case dropWhile (\<lambda>c. c \<noteq> CHR '','') str of
        [] \<Rightarrow> None
      | c # rest \<Rightarrow> Some (takeWhile (\<lambda>c. c \<noteq> CHR '','') rest))"

definition startsWith :: "string \<Rightarrow> string \<Rightarrow> bool" where
  "startsWith str pre \<longleftrightarrow> take (length pre) str = pre"

text \<open>The \<open>parts\<close> built for \<open>entries[i]\<close>; the loop reads it for \<open>i < entries.length\<close> only.\<close>

definition cloud_request :: "DressEntry list \<Rightarrow> nat \<Rightarrow> request" where
  "cloud_request es i =
     (let entry = es ! i in
      \<lparr> r_number = i + 1,
        r_total = length es,
        r_id = id' entry,
        r_location = location entry,
        r_price = price entry,
        r_notes = teamNotes entry,
        r_inlineData =
          (case image' entry of
             None \<Rightarrow> None
           | Some img \<Rightarrow>
               if img \<noteq> [] \<and> startsWith img ''data:image'' then Some (split_comma_1 img)
               else None) \<rparr>)"

text \<open>
  The \<open>for\<close> loop, from index \<open>i\<close> on. \<open>generateContent req\<close> tells whether the awaited
  call for \<open>req\<close> resolves; \<open>round_percent k n\<close> is the number
  \<open>Math.round((k / n) * 100)\<close> as the double arithmetic gives it. \<open>Inl\<close> is the loop left
  by the rejected call's exception, \<open>Inr\<close> the loop run to its end.
\<close>

function cloud_loop ::
  "(request \<Rightarrow> bool) \<Rightarrow> (nat \<Rightarrow> nat \<Rightarrow> int) \<Rightarrow> DressEntry list \<Rightarrow> nat \<Rightarrow> Session \<Rightarrow> Session + Session" where
  "cloud_loop generateContent round_percent es i s =
     (if i < length es then
        (let p = round_percent (i + 1) (length es);
             s1 = s\<lparr> app := (app s)\<lparr> syncProgress := p \<rparr>,
                     effects := effects s @ [SetSyncProgress p] \<rparr>;
             req = cloud_request es i
         in if generateContent req
            then cloud_loop generateContent round_percent es (i + 1)
                   (s1\<lparr> effects := effects s1 @ [GenerateContent req True] \<rparr>)
            else Inl (s1\<lparr> effects := effects s1 @ [GenerateContent req False] \<rparr>))
      else Inr s)"
  by pat_completeness auto
termination
  by (relation "measure (\<lambda>(generateContent, round_percent, es, i, s). length es - i)") auto

declare cloud_loop.simps [simp del]

text \<open>
  The whole callback. \<open>entries\<close> is the list the callback closed over, the state's.
  \<open>now\<close> is the value of \<open>Date.now()\<close>. The write to the slot is inside the \<open>try\<close>:
  when the text does not fit (\<open>quota_allows\<close>, as above) its exception goes to the
  \<open>catch\<close> before any call is made.
\<close>

definition saveToCloud_v1 ::
  "(SyncData \<Rightarrow> string) \<Rightarrow> (string \<Rightarrow> bool) \<Rightarrow> int \<Rightarrow> (request \<Rightarrow> bool) \<Rightarrow> (nat \<Rightarrow> nat \<Rightarrow> int) \<Rightarrow>
     Session \<Rightarrow> Session" where
  "saveToCloud_v1 JSON_stringify quota_allows now generateContent round_percent s =
     (if length (entries (app s)) = 0 then s
      else
        (let s1 = s\<lparr> app := (app s)\<lparr> isSyncing := True, cloudStatus := Loading,
                                      syncProgress := 0 \<rparr>,
                     effects := effects s @ [SetSyncProgress 0] \<rparr>;
             syncData = \<lparr> entries' = entries (app s), lastUpdated = now \<rparr>;
             text = JSON_stringify syncData;
             s2 = s1\<lparr> slot := Some text, effects := effects s1 @ [SetItem text] \<rparr>;
             attempt = (if quota_allows text
                        then cloud_loop generateContent round_percent (entries (app s)) 0 s2
                        else Inl s1);
             s3 = (case attempt of
                     Inr t \<Rightarrow>
                       t\<lparr> app := (app t)\<lparr> lastSyncTime := Some (lastUpdated syncData),
                                            cloudStatus := Success \<rparr>,
                          effects := effects t @ [SetTimeoutIdle, Alert CloudSuccessAlert] \<rparr>
                   | Inl t \<Rightarrow>
                       t\<lparr> app := (app t)\<lparr> cloudStatus := Error \<rparr>,
                          effects := effects t @ [ConsoleError, Alert CloudFailureAlert] \<rparr>)
         in s3\<lparr> app := (app s3)\<lparr> isSyncing := False, syncProgress := 0 \<rparr>,
                effects := effects s3 @ [SetSyncProgress 0] \<rparr>))"

text \<open>The two effects of one loop iteration, and the remote calls of an effect list.\<close>

definition iteration ::
  "(request \<Rightarrow> bool) \<Rightarrow> (nat \<Rightarrow> nat \<Rightarrow> int) \<Rightarrow> DressEntry list \<Rightarrow> nat \<Rightarrow> effect list" where
  "iteration generateContent round_percent es i =
     [SetSyncProgress (round_percent (i + 1) (length es)),
      GenerateContent (cloud_request es i) (generateContent (cloud_request es i))]"

fun calls :: "effect list \<Rightarrow> (request \<times> bool) list" where
  "calls [] = []"
| "calls (GenerateContent req ok # fs) = (req, ok) # calls fs"
| "calls (f # fs) = calls fs"


section \<open>Image normalizer (\<open>compressImage\<close> of \<open>part_001\<close>, lines 31-56)\<close>

text \<open>
  JavaScript numbers are binary64 doubles, and \<open>/\<close> and \<open>*\<close> round the exact result to
  the nearest double, ties to the even significand. For \<open>2^k \<le> |x| < 2^(k+1)\<close> the
  doubles are the multiples of \<open>2^(k-52)\<close>. (Overflow and subnormal numbers are left out:
  the handler divides 600 by a pixel count and multiplies by a smaller pixel count.)
\<close>

definition round_half_even :: "real \<Rightarrow> int" where
  "round_half_even y =
     (let f = \<lfloor>y\<rfloor> in
      if y - of_int f < 1 / 2 then f
      else if 1 / 2 < y - of_int f then f + 1
      else if even f then f else f + 1)"

definition round_double :: "real \<Rightarrow> real" where
  "round_double x =
     (if x = 0 then 0
      else (let ulp = 2 powr (of_int (\<lfloor>log 2 \<bar>x\<bar>\<rfloor> - 52))
            in of_int (round_half_even (x / ulp)) * ulp))"

definition double_div :: "real \<Rightarrow> real \<Rightarrow> real" where
  "double_div x y = round_double (x / y)"

definition double_mul :: "real \<Rightarrow> real \<Rightarrow> real" where
  "double_mul x y = round_double (x * y)"

text \<open>
  The \<open>onload\<close> handler. \<open>decode\<close> is the browser's image decoder: the size
  \<open>(img.width, img.height)\<close> of the image whose \<open>src\<close> is the given text, or \<open>None\<close>
  when it does not load; the promise then never resolves, as the handler sets no
  \<open>onerror\<close>. Assigning a number to \<open>canvas.width\<close> or \<open>canvas.height\<close> truncates it to
  an integer. \<open>toDataURL\<close> returns the text \<open>data:,\<close> for a canvas without pixels, and
  the encoding of the canvas in the given type and quality otherwise.
  The result records what the handler does: the text it gives to \<open>img.src\<close>, the size of
  the canvas, the size given to \<open>drawImage\<close> when a 2d context exists, and what
  \<open>toDataURL\<close> returns.
\<close>

definition MAX_SIZE :: nat where
  "MAX_SIZE = 600"

datatype data_url = NoPixels | Encoded string real

definition toDataURL :: "nat \<Rightarrow> nat \<Rightarrow> string \<Rightarrow> real \<Rightarrow> data_url" where
  "toDataURL w h type q = (if w = 0 \<or> h = 0 then NoPixels else Encoded type q)"

record Compressed =
  img_src :: string
  canvas_width :: nat
  canvas_height :: nat
  drawImage :: "(real \<times> real) option"
  dataURL :: data_url

text \<open>The two nested \<open>if\<close>s: \<open>height *= MAX_SIZE / width; width = MAX_SIZE\<close> when the
  width is the longer side, and the same with the sides exchanged otherwise.\<close>

definition scaled_size :: "nat \<Rightarrow> nat \<Rightarrow> real \<times> real" where
  "scaled_size img_width img_height =
     (if img_width > img_height then
        (if img_width > MAX_SIZE
         then (real MAX_SIZE,
               double_mul (real img_height) (double_div (real MAX_SIZE) (real img_width)))
         else (real img_width, real img_height))
      else
        (if img_height > MAX_SIZE
         then (double_mul (real img_width) (double_div (real MAX_SIZE) (real img_height)),
               real MAX_SIZE)
         else (real img_width, real img_height)))"

definition compressImage :: "(string \<Rightarrow> (nat \<times> nat) option) \<Rightarrow> bool \<Rightarrow> string \<Rightarrow> Compressed option" where
  "compressImage decode has_ctx base64 =
     (case decode base64 of
        None \<Rightarrow> None
      | Some (img_width, img_height) \<Rightarrow>
          (let (width, height) = scaled_size img_width img_height in
           Some \<lparr> img_src = base64,
                  canvas_width = nat \<lfloor>width\<rfloor>,
                  canvas_height = nat \<lfloor>height\<rfloor>,
                  drawImage = (if has_ctx then Some (width, height) else None),
                  dataURL = toDataURL (nat \<lfloor>width\<rfloor>) (nat \<lfloor>height\<rfloor>) ''image/jpeg'' (1 / 2) \<rparr>))"


section \<open>Sample data\<close>

text \<open>
  A session that holds the given entries and has stored nothing yet, three fresh entries of
  a one-member roster, and \<open>Math.round((k / n) * 100)\<close> computed exactly; they serve as
  concrete inputs below.
\<close>

definition session_of :: "DressEntry list \<Rightarrow> Session" where
  "session_of es = (fresh_session None)\<lparr> app := initial_state\<lparr> entries := es \<rparr> \<rparr>"

definition three_entries :: "DressEntry list" where
  "three_entries = [newEntry [''Dana''] ''a'', newEntry [''Dana''] ''b'', newEntry [''Dana''] ''c'']"

definition exact_percent :: "nat \<Rightarrow> nat \<Rightarrow> int" where
  "exact_percent k n = (200 * int k + int n) div (2 * int n)"

text \<open>
  A small codec in place of JSON for snapshots of fresh entries of the roster
  \<open>[''Dana'']\<close>: the text lists the ids, each closed by a semicolon, and then one \<open>#\<close>
  per millisecond of the timestamp; reading it back collects the ids and counts the marks.
\<close>

definition toy_stringify :: "SyncData \<Rightarrow> string" where
  "toy_stringify d =
     concat (map (\<lambda>e. id' e @ '';'') (entries' d)) @ replicate (nat (lastUpdated d)) (CHR ''#'')"

fun toy_ids :: "string \<Rightarrow> string \<Rightarrow> string list" where
  "toy_ids acc [] = []"
| "toy_ids acc (c # cs) =
     (if c = CHR '';'' then rev acc # toy_ids [] cs
      else if c = CHR ''#'' then toy_ids acc cs
      else toy_ids (c # acc) cs)"

definition toy_parse :: "string \<Rightarrow> parsed option" where
  "toy_parse t =
     (if CHR '';'' \<in> set t
      then Some (JValue (EntryArray (map (newEntry [''Dana'']) (toy_ids [] t)))
                  (Some (int (length (filter (\<lambda>c. c = CHR ''#'') t)))))
      else None)"


section \<open>Properties of the countdown\<close>

lemma mod_div_bounds:
  fixes d :: int
  assumes "0 < b" and "0 < a"
  shows "0 \<le> (d mod a) div b \<and> (d mod a) div b \<le> (a - 1) div b"
proof -
  have lo: "0 \<le> d mod a" and hi: "d mod a \<le> a - 1"
    using assms by simp_all
  from lo assms(1) have "0 \<le> (d mod a) div b"
    by (simp add: pos_imp_zdiv_nonneg_iff)
  moreover from hi assms(1) have "(d mod a) div b \<le> (a - 1) div b"
    by (rule zdiv_mono1)
  ultimately show ?thesis by simp
qed

lemma decompose_ranges:
  "0 \<le> hours (decompose d) \<and> hours (decompose d) \<le> 23 \<and>
   0 \<le> minutes (decompose d) \<and> minutes (decompose d) \<le> 59 \<and>
   0 \<le> seconds (decompose d) \<and> seconds (decompose d) \<le> 59"
proof -
  have h: "0 \<le> (d mod 86400000) div 3600000 \<and> (d mod 86400000) div 3600000 \<le> 23"
    using mod_div_bounds [of 3600000 86400000 d] by simp
  have m: "0 \<le> (d mod 3600000) div 60000 \<and> (d mod 3600000) div 60000 \<le> 59"
    using mod_div_bounds [of 60000 3600000 d] by simp
  have s: "0 \<le> (d mod 60000) div 1000 \<and> (d mod 60000) div 1000 \<le> 59"
    using mod_div_bounds [of 1000 60000 d] by simp
  from h m s show ?thesis by (simp add: decompose_def)
qed

lemma decompose_days_nonneg: "0 \<le> d \<Longrightarrow> 0 \<le> days (decompose d)"
  by (simp add: decompose_def pos_imp_zdiv_nonneg_iff)

text \<open>
  Claim C9. Whenever the remaining interval \<open>TARGET_DATE - now\<close> is non-negative, the
  interval callback stores a decomposition with days non-negative, hours in 0..23, minutes
  in 0..59 and seconds in 0..59; and when the target is exactly 90061000 ms ahead, it stores
  days = 1, hours = 1, minutes = 1, seconds = 1.
\<close>

theorem countdown_decomposition:
  assumes "0 \<le> TARGET_DATE - now"
  shows "(let t = timeLeft (interval_tick TARGET_DATE now st) in
            t = decompose (TARGET_DATE - now) \<and>
            0 \<le> days t \<and>
            0 \<le> hours t \<and> hours t \<le> 23 \<and>
            0 \<le> minutes t \<and> minutes t \<le> 59 \<and>
            0 \<le> seconds t \<and> seconds t \<le> 59 \<and>
            (TARGET_DATE = now + 90061000 \<longrightarrow>
               t = \<lparr> days = 1, hours = 1, minutes = 1, seconds = 1 \<rparr>))"
proof -
  let ?d = "TARGET_DATE - now"
  have t: "timeLeft (interval_tick TARGET_DATE now st) = decompose ?d"
    using assms by (simp add: interval_tick_def Let_def)
  have ex: "TARGET_DATE = now + 90061000 \<longrightarrow>
              decompose ?d = \<lparr> days = 1, hours = 1, minutes = 1, seconds = 1 \<rparr>"
    by (simp add: decompose_def)
  show ?thesis
    unfolding Let_def t
    using decompose_ranges [of ?d] decompose_days_nonneg [OF assms] ex by simp
qed

theorem countdown_decomposition_witness:
  "(0::int) \<le> 1700090061000 - 1700000000000 \<and>
   timeLeft (interval_tick 1700090061000 1700000000000 countdown_init) =
     \<lparr> days = 1, hours = 1, minutes = 1, seconds = 1 \<rparr>"
proof -
  have h: "(0::int) \<le> 1700090061000 - 1700000000000" by simp
  have e: "(1700090061000::int) = 1700000000000 + 90061000" by simp
  from countdown_decomposition [OF h, of countdown_init] e h show ?thesis
    unfolding Let_def by blast
qed


section \<open>Properties of the entry store\<close>

lemma emptyNotes_foldl:
  "foldl (\<lambda>acc nm. acc(nm \<mapsto> \<lparr> name = Some nm, note' = Some [], vote = Some None \<rparr>)) m ks k =
     (if k \<in> set ks then Some \<lparr> name = Some k, note' = Some [], vote = Some None \<rparr> else m k)"
  by (induction ks arbitrary: m) auto

lemma emptyNotes_apply:
  "emptyNotes TEAM_MEMBERS k =
     (if k \<in> set TEAM_MEMBERS then Some \<lparr> name = Some k, note' = Some [], vote = Some None \<rparr> else None)"
  by (simp add: emptyNotes_def emptyNotes_foldl)

lemma dom_emptyNotes: "dom (emptyNotes TEAM_MEMBERS) = set TEAM_MEMBERS"
  by (auto simp: dom_def emptyNotes_apply)

lemma notes_ok_newEntry: "notes_ok TEAM_MEMBERS (newEntry TEAM_MEMBERS uuid)"
  by (simp add: notes_ok_def newEntry_def dom_emptyNotes emptyNotes_apply)

lemma notes_ok_spread_entry:
  "notes_ok TEAM_MEMBERS e \<Longrightarrow> p_teamNotes updates = None \<Longrightarrow>
   notes_ok TEAM_MEMBERS (spread_entry e updates)"
  by (simp add: notes_ok_def spread_entry_def)

lemma name_spread_note: "name (spread_note (Some n) updates) = name n"
  by (simp add: spread_note_def Let_def)

lemma notes_ok_note_update:
  assumes "notes_ok TEAM_MEMBERS e" and "memberName \<in> set TEAM_MEMBERS"
  shows "notes_ok TEAM_MEMBERS
           (e\<lparr> teamNotes := (teamNotes e)(memberName \<mapsto> spread_note (teamNotes e memberName) updates) \<rparr>)"
proof -
  from assms obtain n where n: "teamNotes e memberName = Some n" "name n = Some memberName"
    by (auto simp: notes_ok_def)
  from assms have d: "insert memberName (dom (teamNotes e)) = set TEAM_MEMBERS"
    by (auto simp: notes_ok_def)
  show ?thesis
    using assms(1) n d by (auto simp: notes_ok_def name_spread_note)
qed

lemma all_notes_ok_apply_op:
  assumes "all_notes_ok TEAM_MEMBERS es" and "roster_op TEAM_MEMBERS op"
  shows "all_notes_ok TEAM_MEMBERS (apply_op v TEAM_MEMBERS es op)"
proof (cases op)
  case (Create uuid)
  with assms(1) show ?thesis
    by (cases v) (simp_all add: all_notes_ok_def addNewDress_def notes_ok_newEntry)
next
  case (UpdateFields ident updates)
  with assms show ?thesis
    by (auto simp: all_notes_ok_def updateEntry_def list_all_iff notes_ok_spread_entry)
next
  case (UpdateNote entryId memberName updates)
  with assms show ?thesis
    by (auto simp: all_notes_ok_def updateMemberNote_def list_all_iff notes_ok_note_update)
next
  case (Remove confirmed ident)
  with assms(1) show ?thesis
    by (auto simp: all_notes_ok_def removeDress_def list_all_iff)
qed

lemma all_notes_ok_run_ops:
  "all_notes_ok TEAM_MEMBERS es \<Longrightarrow> list_all (roster_op TEAM_MEMBERS) ops \<Longrightarrow>
   all_notes_ok TEAM_MEMBERS (run_ops v TEAM_MEMBERS es ops)"
  unfolding run_ops_def
  by (induction ops arbitrary: es) (simp_all add: all_notes_ok_apply_op)

text \<open>
  Claim C2, as amended. Starting from the empty list or from the single seed entry, after
  every finite sequence of create-entry, update-entry-fields, update-note and remove-entry
  operations in which each update-note names a member of the roster and no
  update-entry-fields carries a \<open>teamNotes\<close> object, every surviving entry's \<open>teamNotes\<close>
  map has exactly the roster's names as keys, and the Note under each key has that key as
  its \<open>name\<close>.
\<close>

theorem roster_invariant:
  assumes "es0 = [] \<or> es0 = [newEntry TEAM_MEMBERS uuid]"
    and "list_all (roster_op TEAM_MEMBERS) ops"
  shows "all_notes_ok TEAM_MEMBERS (run_ops v TEAM_MEMBERS es0 ops)"
proof -
  from assms(1) have "all_notes_ok TEAM_MEMBERS es0"
    by (auto simp: all_notes_ok_def notes_ok_newEntry)
  then show ?thesis using assms(2) by (rule all_notes_ok_run_ops)
qed

text \<open>
  The claim as stated, for every sequence of operations, fails: an update-note for a name
  outside the roster adds a key.
\<close>

theorem roster_invariant_counterexample:
  "\<not> all_notes_ok [''Dana'']
       (run_ops Part001 [''Dana''] []
          [Create ''a'', UpdateNote ''a'' ''Eve'' \<lparr> p_note = None, p_vote = Some (Some Up) \<rparr>])"
  by (simp add: all_notes_ok_def run_ops_def addNewDress_def updateMemberNote_def newEntry_def
      notes_ok_def)

theorem roster_invariant_witness:
  "list_all (roster_op [''Dana'', ''Noa''])
     [Create ''a'', UpdateNote ''a'' ''Noa'' \<lparr> p_note = None, p_vote = Some (Some Up) \<rparr>,
      UpdateFields ''a'' \<lparr> p_id = None, p_location = Some ''Haifa'', p_price = None,
                            p_image = None, p_teamNotes = None \<rparr>,
      Create ''b'', Remove True ''b''] \<and>
   all_notes_ok [''Dana'', ''Noa'']
     (run_ops Part000 [''Dana'', ''Noa''] [newEntry [''Dana'', ''Noa''] ''s'']
        [Create ''a'', UpdateNote ''a'' ''Noa'' \<lparr> p_note = None, p_vote = Some (Some Up) \<rparr>,
         UpdateFields ''a'' \<lparr> p_id = None, p_location = Some ''Haifa'', p_price = None,
                               p_image = None, p_teamNotes = None \<rparr>,
         Create ''b'', Remove True ''b''])"
proof -
  have ops: "list_all (roster_op [''Dana'', ''Noa''])
     [Create ''a'', UpdateNote ''a'' ''Noa'' \<lparr> p_note = None, p_vote = Some (Some Up) \<rparr>,
      UpdateFields ''a'' \<lparr> p_id = None, p_location = Some ''Haifa'', p_price = None,
                            p_image = None, p_teamNotes = None \<rparr>,
      Create ''b'', Remove True ''b'']"
    by simp
  have start: "[newEntry [''Dana'', ''Noa''] ''s''] = [] \<or>
               [newEntry [''Dana'', ''Noa''] ''s''] = [newEntry [''Dana'', ''Noa''] ''s'']"
    by simp
  from roster_invariant [OF start ops, of Part000] ops show ?thesis by blast
qed

lemma updateMemberNote_absent_id:
  "\<forall>e \<in> set es. id' e \<noteq> entryId \<Longrightarrow> updateMemberNote entryId memberName updates es = es"
  unfolding updateMemberNote_def by (rule map_idI) simp

lemma spread_note_cases:
  "spread_note memberNote updates =
     (case memberNote of
        None \<Rightarrow> \<lparr> name = None, note' = p_note updates, vote = p_vote updates \<rparr>
      | Some n \<Rightarrow> n\<lparr> note' := (case p_note updates of None \<Rightarrow> note' n | Some t \<Rightarrow> Some t),
                      vote := (case p_vote updates of None \<Rightarrow> vote n | Some w \<Rightarrow> Some w) \<rparr>)"
  by (simp add: spread_note_def Let_def split: option.splits)

text \<open>
  Claim C3, as amended. If no entry has the given id, update-note leaves the entry list
  unchanged. Otherwise the list keeps its length and order, every entry with another id is
  unchanged, and every entry with that id differs only in \<open>teamNotes\<close> at the given member
  name: when a Note is stored there, the given fields are merged into it (its \<open>name\<close> and
  the fields not given are kept); when none is stored there, a new Note is added that holds
  only the given fields.
\<close>

theorem updateMemberNote_merge:
  "((\<forall>e \<in> set es. id' e \<noteq> entryId) \<longrightarrow>
      updateMemberNote entryId memberName updates es = es) \<and>
   length (updateMemberNote entryId memberName updates es) = length es \<and>
   (\<forall>i < length es.
      updateMemberNote entryId memberName updates es ! i =
        (if id' (es ! i) = entryId
         then (es ! i)\<lparr> teamNotes := (teamNotes (es ! i))(memberName \<mapsto>
                 (case teamNotes (es ! i) memberName of
                    None \<Rightarrow> \<lparr> name = None, note' = p_note updates, vote = p_vote updates \<rparr>
                  | Some n \<Rightarrow>
                      n\<lparr> note' := (case p_note updates of None \<Rightarrow> note' n | Some t \<Rightarrow> Some t),
                         vote := (case p_vote updates of None \<Rightarrow> vote n | Some w \<Rightarrow> Some w) \<rparr>)) \<rparr>
         else es ! i))"
proof (intro conjI impI allI)
  assume "\<forall>e \<in> set es. id' e \<noteq> entryId"
  then show "updateMemberNote entryId memberName updates es = es"
    by (rule updateMemberNote_absent_id)
next
  show "length (updateMemberNote entryId memberName updates es) = length es"
    by (simp add: updateMemberNote_def)
next
  fix i assume "i < length es"
  then show "updateMemberNote entryId memberName updates es ! i =
        (if id' (es ! i) = entryId
         then (es ! i)\<lparr> teamNotes := (teamNotes (es ! i))(memberName \<mapsto>
                 (case teamNotes (es ! i) memberName of
                    None \<Rightarrow> \<lparr> name = None, note' = p_note updates, vote = p_vote updates \<rparr>
                  | Some n \<Rightarrow>
                      n\<lparr> note' := (case p_note updates of None \<Rightarrow> note' n | Some t \<Rightarrow> Some t),
                         vote := (case p_vote updates of None \<Rightarrow> vote n | Some w \<Rightarrow> Some w) \<rparr>)) \<rparr>
         else es ! i)"
    by (simp add: updateMemberNote_def spread_note_cases)
qed

text \<open>
  The claim as stated fails where the entry exists and the member is absent: the list
  changes, a Note without \<open>name\<close> appears under the new key.
\<close>

theorem updateMemberNote_noop_counterexample:
  "teamNotes (newEntry [''Dana''] ''a'') ''Eve'' = None \<and>
   updateMemberNote ''a'' ''Eve'' \<lparr> p_note = None, p_vote = Some (Some Up) \<rparr>
       [newEntry [''Dana''] ''a''] \<noteq> [newEntry [''Dana''] ''a''] \<and>
   teamNotes (hd (updateMemberNote ''a'' ''Eve'' \<lparr> p_note = None, p_vote = Some (Some Up) \<rparr>
       [newEntry [''Dana''] ''a''])) ''Eve'' =
     Some \<lparr> name = None, note' = None, vote = Some (Some Up) \<rparr>"
proof -
  have a: "teamNotes (newEntry [''Dana''] ''a'') ''Eve'' = None"
    by (simp add: newEntry_def emptyNotes_def)
  have b: "teamNotes (hd (updateMemberNote ''a'' ''Eve'' \<lparr> p_note = None, p_vote = Some (Some Up) \<rparr>
       [newEntry [''Dana''] ''a''])) ''Eve'' =
     Some \<lparr> name = None, note' = None, vote = Some (Some Up) \<rparr>"
    by (simp add: updateMemberNote_def newEntry_def spread_note_def emptyNotes_def)
  have c: "updateMemberNote ''a'' ''Eve'' \<lparr> p_note = None, p_vote = Some (Some Up) \<rparr>
       [newEntry [''Dana''] ''a''] \<noteq> [newEntry [''Dana''] ''a'']"
  proof
    assume "updateMemberNote ''a'' ''Eve'' \<lparr> p_note = None, p_vote = Some (Some Up) \<rparr>
       [newEntry [''Dana''] ''a''] = [newEntry [''Dana''] ''a'']"
    with b have "teamNotes (hd [newEntry [''Dana''] ''a'']) ''Eve'' =
       Some \<lparr> name = None, note' = None, vote = Some (Some Up) \<rparr>" by simp
    with a show False by simp
  qed
  from a b c show ?thesis by blast
qed

theorem updateMemberNote_merge_witness:
  "id' (newEntry [''Dana''] ''a'') \<noteq> ''b'' \<and>
   updateMemberNote ''b'' ''Dana'' \<lparr> p_note = Some ''nice'', p_vote = None \<rparr>
     [newEntry [''Dana''] ''a''] = [newEntry [''Dana''] ''a''] \<and>
   (0::nat) < length [newEntry [''Dana''] ''a''] \<and>
   teamNotes (updateMemberNote ''a'' ''Dana'' \<lparr> p_note = Some ''nice'', p_vote = None \<rparr>
     [newEntry [''Dana''] ''a''] ! 0) ''Dana'' =
     Some \<lparr> name = Some ''Dana'', note' = Some ''nice'', vote = Some None \<rparr>"
proof -
  have h: "\<forall>e \<in> set [newEntry [''Dana''] ''a'']. id' e \<noteq> ''b''"
    by (simp add: newEntry_def)
  have l: "(0::nat) < length [newEntry [''Dana''] ''a'']" by simp
  from updateMemberNote_merge [of "[newEntry [''Dana''] ''a'']" "''b''" "''Dana''"
        "\<lparr> p_note = Some ''nice'', p_vote = None \<rparr>"] h
  have 1: "updateMemberNote ''b'' ''Dana'' \<lparr> p_note = Some ''nice'', p_vote = None \<rparr>
     [newEntry [''Dana''] ''a''] = [newEntry [''Dana''] ''a'']" by blast
  from updateMemberNote_merge [of "[newEntry [''Dana''] ''a'']" "''a''" "''Dana''"
        "\<lparr> p_note = Some ''nice'', p_vote = None \<rparr>"] l
  have "updateMemberNote ''a'' ''Dana'' \<lparr> p_note = Some ''nice'', p_vote = None \<rparr>
          [newEntry [''Dana''] ''a''] ! 0 =
        (if id' ([newEntry [''Dana''] ''a''] ! 0) = ''a''
         then ([newEntry [''Dana''] ''a''] ! 0)\<lparr> teamNotes := (teamNotes ([newEntry [''Dana''] ''a''] ! 0))(''Dana'' \<mapsto>
                 (case teamNotes ([newEntry [''Dana''] ''a''] ! 0) ''Dana'' of
                    None \<Rightarrow> \<lparr> name = None, note' = p_note \<lparr> p_note = Some ''nice'', p_vote = None \<rparr>, vote = p_vote \<lparr> p_note = Some ''nice'', p_vote = None \<rparr> \<rparr>
                  | Some n \<Rightarrow>
                      n\<lparr> note' := (case p_note \<lparr> p_note = Some ''nice'', p_vote = None \<rparr> of None \<Rightarrow> note' n | Some t \<Rightarrow> Some t),
                         vote := (case p_vote \<lparr> p_note = Some ''nice'', p_vote = None \<rparr> of None \<Rightarrow> vote n | Some w \<Rightarrow> Some w) \<rparr>)) \<rparr>
         else [newEntry [''Dana''] ''a''] ! 0)" by blast
  then have 2: "teamNotes (updateMemberNote ''a'' ''Dana'' \<lparr> p_note = Some ''nice'', p_vote = None \<rparr>
     [newEntry [''Dana''] ''a''] ! 0) ''Dana'' =
     Some \<lparr> name = Some ''Dana'', note' = Some ''nice'', vote = Some None \<rparr>"
    by (simp add: newEntry_def emptyNotes_def)
  have h': "id' (newEntry [''Dana''] ''a'') \<noteq> ''b''"
    by (simp add: newEntry_def)
  from h' 1 l 2 show ?thesis by blast
qed


section \<open>Properties of the persistence bridge\<close>

lemma load_v1_malformed_caught:
  assumes "slot s = Some saved" and "saved \<noteq> []" and "JSON_parse saved = None"
  shows "load_v1 JSON_parse s = Done (s\<lparr> effects := effects s @ [ConsoleError] \<rparr>)"
  using assms by (simp add: load_v1_def Let_def)

lemma load_v1_null_caught:
  assumes "slot s = Some saved" and "saved \<noteq> []" and "JSON_parse saved = Some JNull"
  shows "load_v1 JSON_parse s = Done (s\<lparr> effects := effects s @ [ConsoleError] \<rparr>)"
  using assms by (simp add: load_v1_def Let_def)

lemma load_v1_never_uncaught: "load_v1 JSON_parse s \<noteq> Uncaught"
  by (simp add: load_v1_def Let_def split: option.splits parsed.splits entries_value.splits)

text \<open>What the \<open>try\<close> of \<open>part_001\<close> does not stop: a parsed value whose \<open>entries\<close> is
  truthy and no array of entries, as for the slot text \<open>[]\<close>.\<close>

lemma load_v1_other_entries:
  assumes "slot s = Some saved" and "saved \<noteq> []" and "JSON_parse saved = Some (JValue Other t)"
  shows "load_v1 JSON_parse s = NotEntries"
  using assms by (simp add: load_v1_def Let_def)

text \<open>
  Claim C1, on \<open>part_000\<close>. When the slot holds a non-empty text that \<open>JSON.parse\<close>
  rejects, the initial-load effect of \<open>part_000\<close> ends with the uncaught exception: nothing
  is caught, nothing is logged, no state is kept. (\<open>part_001\<close> catches and logs it, see
  \<open>load_v1_malformed_caught\<close>.)
\<close>

theorem load_v0_malformed_uncaught:
  assumes "slot s = Some saved" and "saved \<noteq> []" and "JSON_parse saved = None"
  shows "load_v0 JSON_parse TEAM_MEMBERS uuid s = Uncaught"
  using assms by (simp add: load_v0_def Let_def)

theorem load_v0_malformed_uncaught_witness:
  "slot (fresh_session (Some ''{'')) = Some ''{'' \<and> ''{'' \<noteq> [] \<and>
   (\<lambda>t::string. None :: parsed option) ''{'' = None \<and>
   load_v0 (\<lambda>t. None) [''Dana''] ''a'' (fresh_session (Some ''{'')) = Uncaught"
proof -
  have 1: "slot (fresh_session (Some ''{'')) = Some ''{''" by (simp add: fresh_session_def)
  have 2: "''{'' \<noteq> []" by simp
  have 3: "(\<lambda>t::string. None :: parsed option) ''{'' = None" by simp
  from load_v0_malformed_uncaught [OF 1 2 3] 1 2 3 show ?thesis by blast
qed

text \<open>
  Claim C6, as amended. When the slot is absent, the initial load of \<open>part_000\<close> sets the
  entries to exactly one entry: its id is the generated uuid, location and price are empty,
  it has no image, and its \<open>teamNotes\<close> has exactly the roster's names as keys, each with
  the empty Note (its name, empty text, vote \<open>null\<close>); nothing else of the session changes.
  The initial load of \<open>part_001\<close> leaves the session as it is, so a fresh session keeps
  the empty entry list.
\<close>

theorem load_absent_slot:
  assumes "slot s = None"
  shows "(\<exists>e. load_v0 JSON_parse TEAM_MEMBERS uuid s = Done (s\<lparr> app := (app s)\<lparr> entries := [e] \<rparr> \<rparr>) \<and>
              id' e = uuid \<and> location e = [] \<and> price e = [] \<and> image' e = None \<and>
              dom (teamNotes e) = set TEAM_MEMBERS \<and>
              (\<forall>k \<in> set TEAM_MEMBERS.
                 teamNotes e k = Some \<lparr> name = Some k, note' = Some [], vote = Some None \<rparr>)) \<and>
         load_v1 JSON_parse s = Done s"
proof -
  have "load_v0 JSON_parse TEAM_MEMBERS uuid s =
          Done (s\<lparr> app := (app s)\<lparr> entries := [newEntry TEAM_MEMBERS uuid] \<rparr> \<rparr>)"
    using assms by (simp add: load_v0_def Let_def)
  moreover have "id' (newEntry TEAM_MEMBERS uuid) = uuid"
    and "location (newEntry TEAM_MEMBERS uuid) = []"
    and "price (newEntry TEAM_MEMBERS uuid) = []"
    and "image' (newEntry TEAM_MEMBERS uuid) = None"
    by (simp_all add: newEntry_def)
  moreover have "dom (teamNotes (newEntry TEAM_MEMBERS uuid)) = set TEAM_MEMBERS"
    by (simp add: newEntry_def dom_emptyNotes)
  moreover have "\<forall>k \<in> set TEAM_MEMBERS.
      teamNotes (newEntry TEAM_MEMBERS uuid) k =
        Some \<lparr> name = Some k, note' = Some [], vote = Some None \<rparr>"
    by (simp add: newEntry_def emptyNotes_apply)
  moreover have "load_v1 JSON_parse s = Done s"
    using assms by (simp add: load_v1_def Let_def)
  ultimately show ?thesis by blast
qed

text \<open>The claim as stated fails on \<open>part_001\<close>: with no slot, a fresh session keeps no entry.\<close>

theorem load_v1_no_seed_counterexample:
  "slot (fresh_session None) = None \<and>
   load_v1 (\<lambda>t. None) (fresh_session None) = Done (fresh_session None) \<and>
   entries (app (fresh_session None)) = []"
  by (simp add: load_v1_def fresh_session_def initial_state_def)

theorem load_absent_slot_witness:
  "slot (fresh_session None) = None \<and>
   load_v0 (\<lambda>t. None) [''Dana'', ''Noa''] ''a'' (fresh_session None) =
     Done ((fresh_session None)\<lparr> app := (app (fresh_session None))\<lparr> entries :=
       [\<lparr> id' = ''a'', location = [], price = [], image' = None,
          teamNotes = [''Dana'' \<mapsto> \<lparr> name = Some ''Dana'', note' = Some [], vote = Some None \<rparr>,
                       ''Noa'' \<mapsto> \<lparr> name = Some ''Noa'', note' = Some [], vote = Some None \<rparr>] \<rparr>] \<rparr> \<rparr>)"
proof -
  have h: "slot (fresh_session None) = None" by (simp add: fresh_session_def)
  from load_absent_slot [OF h, of "\<lambda>t. None" "[''Dana'', ''Noa'']" "''a''"]
  obtain e where
    d: "load_v0 (\<lambda>t. None) [''Dana'', ''Noa''] ''a'' (fresh_session None) =
          Done ((fresh_session None)\<lparr> app := (app (fresh_session None))\<lparr> entries := [e] \<rparr> \<rparr>)"
    and f: "id' e = ''a''" "location e = []" "price e = []" "image' e = None"
    and dm: "dom (teamNotes e) = set [''Dana'', ''Noa'']"
    and v: "\<forall>k \<in> set [''Dana'', ''Noa''].
              teamNotes e k = Some \<lparr> name = Some k, note' = Some [], vote = Some None \<rparr>"
    by blast
  have "teamNotes e = [''Dana'' \<mapsto> \<lparr> name = Some ''Dana'', note' = Some [], vote = Some None \<rparr>,
                       ''Noa'' \<mapsto> \<lparr> name = Some ''Noa'', note' = Some [], vote = Some None \<rparr>]"
  proof
    fix k show "teamNotes e k = [''Dana'' \<mapsto> \<lparr> name = Some ''Dana'', note' = Some [], vote = Some None \<rparr>,
                       ''Noa'' \<mapsto> \<lparr> name = Some ''Noa'', note' = Some [], vote = Some None \<rparr>] k"
    proof (cases "k \<in> set [''Dana'', ''Noa'']")
      case True with v show ?thesis by auto
    next
      case False
      with dm have "teamNotes e k = None" by (metis domIff)
      with False show ?thesis by auto
    qed
  qed
  with f have "e = \<lparr> id' = ''a'', location = [], price = [], image' = None,
          teamNotes = [''Dana'' \<mapsto> \<lparr> name = Some ''Dana'', note' = Some [], vote = Some None \<rparr>,
                       ''Noa'' \<mapsto> \<lparr> name = Some ''Noa'', note' = Some [], vote = Some None \<rparr>] \<rparr>"
    by (cases e) simp
  with d h show ?thesis by simp
qed

text \<open>
  Claim C10. The event that \<open>saveToCloud\<close> of \<open>part_000\<close> dispatches has neither key nor
  new value. The storage listener leaves the session as it is for every event whose key is
  not the storage key or whose new value is missing, and so for that event. A
  \<open>saveToCloud\<close> never changes the entries; when the storage accepts its write it
  dispatches the event and ends with \<open>lastSyncTime\<close> at the time of the save.
\<close>

theorem storage_signal_ignored:
  "key storage_signal = None \<and> newValue storage_signal = None \<and>
   (key e \<noteq> Some STORAGE_KEY \<or> newValue e = None \<longrightarrow>
      handleStorageChange JSON_parse STORAGE_KEY e s = Done s) \<and>
   handleStorageChange JSON_parse STORAGE_KEY storage_signal s = Done s \<and>
   entries (app (saveToCloud_v0 JSON_stringify JSON_parse STORAGE_KEY quota_allows now s)) =
     entries (app s) \<and>
   (quota_allows (JSON_stringify \<lparr> entries' = entries (app s), lastUpdated = now \<rparr>) \<longrightarrow>
      DispatchStorageEvent \<in>
        set (effects (saveToCloud_v0 JSON_stringify JSON_parse STORAGE_KEY quota_allows now s)) \<and>
      lastSyncTime (app (saveToCloud_v0 JSON_stringify JSON_parse STORAGE_KEY quota_allows now s)) =
        Some now)"
proof -
  have sig: "handleStorageChange JSON_parse STORAGE_KEY storage_signal t = Done t" for t
    by (simp add: handleStorageChange_def storage_signal_def)
  have other: "key e \<noteq> Some STORAGE_KEY \<or> newValue e = None \<longrightarrow>
      handleStorageChange JSON_parse STORAGE_KEY e s = Done s"
    by (auto simp: handleStorageChange_def)
  have "key storage_signal = None" and "newValue storage_signal = None"
    by (simp_all add: storage_signal_def)
  moreover have "entries (app (saveToCloud_v0 JSON_stringify JSON_parse STORAGE_KEY quota_allows now s)) =
      entries (app s)"
    by (simp add: saveToCloud_v0_def Let_def sig)
  moreover have "quota_allows (JSON_stringify \<lparr> entries' = entries (app s), lastUpdated = now \<rparr>) \<longrightarrow>
      DispatchStorageEvent \<in>
        set (effects (saveToCloud_v0 JSON_stringify JSON_parse STORAGE_KEY quota_allows now s)) \<and>
      lastSyncTime (app (saveToCloud_v0 JSON_stringify JSON_parse STORAGE_KEY quota_allows now s)) =
        Some now"
    by (simp add: saveToCloud_v0_def Let_def sig)
  ultimately show ?thesis using sig [of s] other by blast
qed

theorem storage_signal_ignored_witness:
  "key \<lparr> key = Some ''other'', newValue = Some ''x'' \<rparr> \<noteq> Some ''dresses'' \<and>
   handleStorageChange (\<lambda>t. Some (JValue (EntryArray []) (Some 5))) ''dresses''
     \<lparr> key = Some ''other'', newValue = Some ''x'' \<rparr> (fresh_session None) = Done (fresh_session None) \<and>
   handleStorageChange (\<lambda>t. Some (JValue (EntryArray []) (Some 5))) ''dresses''
     storage_signal (fresh_session None) = Done (fresh_session None) \<and>
   lastSyncTime (app (saveToCloud_v0 (\<lambda>d. ''snapshot'') (\<lambda>t. Some (JValue (EntryArray []) (Some 5)))
                        ''dresses'' (\<lambda>t. True) 1700000000000 (fresh_session None))) =
     Some 1700000000000"
proof -
  have h: "key \<lparr> key = Some ''other'', newValue = Some ''x'' \<rparr> \<noteq> Some ''dresses''" by simp
  note T = storage_signal_ignored [where e = "\<lparr> key = Some ''other'', newValue = Some ''x'' \<rparr>"
      and STORAGE_KEY = "''dresses''" and JSON_parse = "\<lambda>t. Some (JValue (EntryArray []) (Some 5))"
      and s = "fresh_session None" and JSON_stringify = "\<lambda>d. ''snapshot''"
      and quota_allows = "\<lambda>t. True" and now = 1700000000000]
  from T h show ?thesis by blast
qed


section \<open>Properties of the remote mirror\<close>

lemma cloud_loop_end:
  "\<not> i < length es \<Longrightarrow> cloud_loop gc rp es i s = Inr s"
  by (subst cloud_loop.simps) simp

lemma cloud_loop_reject:
  "i < length es \<Longrightarrow> \<not> gc (cloud_request es i) \<Longrightarrow>
   cloud_loop gc rp es i s =
     Inl (s\<lparr> app := (app s)\<lparr> syncProgress := rp (i + 1) (length es) \<rparr>,
             effects := effects s @ iteration gc rp es i \<rparr>)"
  by (subst cloud_loop.simps) (simp add: Let_def iteration_def)

lemma cloud_loop_resolve:
  "i < length es \<Longrightarrow> gc (cloud_request es i) \<Longrightarrow>
   cloud_loop gc rp es i s =
     cloud_loop gc rp es (Suc i)
       (s\<lparr> app := (app s)\<lparr> syncProgress := rp (i + 1) (length es) \<rparr>,
           effects := effects s @ iteration gc rp es i \<rparr>)"
  by (subst cloud_loop.simps) (simp add: Let_def iteration_def)

text \<open>
  A run of the loop from index \<open>i\<close>: it performs the iterations \<open>i, \<dots>, m - 1\<close> for some
  \<open>m\<close>, all but possibly the last with a resolved call; it either reaches the end of the
  list or is left at the first rejected call. Apart from the effects and \<open>syncProgress\<close>
  the session is untouched.
\<close>

lemma cloud_loop_run:
  assumes "i \<le> length es"
  shows "\<exists>m t. i \<le> m \<and> m \<le> length es \<and>
           (\<forall>j. i \<le> j \<and> Suc j < m \<longrightarrow> gc (cloud_request es j)) \<and>
           ((cloud_loop gc rp es i s = Inr t \<and> m = length es \<and>
               (\<forall>j. i \<le> j \<and> j < m \<longrightarrow> gc (cloud_request es j))) \<or>
            (cloud_loop gc rp es i s = Inl t \<and> i < m \<and> \<not> gc (cloud_request es (m - 1)))) \<and>
           effects t = effects s @ concat (map (iteration gc rp es) [i..<m]) \<and>
           slot t = slot s \<and>
           entries (app t) = entries (app s) \<and>
           lastSyncTime (app t) = lastSyncTime (app s) \<and>
           isSyncing (app t) = isSyncing (app s) \<and>
           cloudStatus (app t) = cloudStatus (app s)"
  using assms
proof (induction "length es - i" arbitrary: i s)
  case 0
  then have "\<not> i < length es" by simp
  then have "cloud_loop gc rp es i s = Inr s" by (rule cloud_loop_end)
  with 0 show ?case
    by (intro exI [of _ i] exI [of _ s]) auto
next
  case (Suc d)
  then have lt: "i < length es" by simp
  let ?s' = "s\<lparr> app := (app s)\<lparr> syncProgress := rp (i + 1) (length es) \<rparr>,
               effects := effects s @ iteration gc rp es i \<rparr>"
  show ?case
  proof (cases "gc (cloud_request es i)")
    case False
    with lt have "cloud_loop gc rp es i s = Inl ?s'" by (rule cloud_loop_reject)
    with lt False show ?thesis
      by (intro exI [of _ "Suc i"] exI [of _ ?s']) auto
  next
    case True
    with lt have step: "cloud_loop gc rp es i s = cloud_loop gc rp es (Suc i) ?s'"
      by (rule cloud_loop_resolve)
    from Suc.hyps(2) lt have d: "d = length es - Suc i" and le: "Suc i \<le> length es" by simp_all
    from Suc.hyps(1) [OF d le, of ?s'] obtain m t where
      m: "Suc i \<le> m" "m \<le> length es"
      and pre: "\<forall>j. Suc i \<le> j \<and> Suc j < m \<longrightarrow> gc (cloud_request es j)"
      and res: "(cloud_loop gc rp es (Suc i) ?s' = Inr t \<and> m = length es \<and>
                   (\<forall>j. Suc i \<le> j \<and> j < m \<longrightarrow> gc (cloud_request es j))) \<or>
                (cloud_loop gc rp es (Suc i) ?s' = Inl t \<and> Suc i < m \<and>
                   \<not> gc (cloud_request es (m - 1)))"
      and eff: "effects t = effects ?s' @ concat (map (iteration gc rp es) [Suc i..<m])"
      and rest: "slot t = slot ?s'" "entries (app t) = entries (app ?s')"
        "lastSyncTime (app t) = lastSyncTime (app ?s')" "isSyncing (app t) = isSyncing (app ?s')"
        "cloudStatus (app t) = cloudStatus (app ?s')"
      by blast
    from m have up: "[i..<m] = i # [Suc i..<m]" by (simp add: upt_conv_Cons)
    have pre': "\<forall>j. i \<le> j \<and> Suc j < m \<longrightarrow> gc (cloud_request es j)"
    proof (intro allI impI)
      fix j assume "i \<le> j \<and> Suc j < m"
      then show "gc (cloud_request es j)" using True pre by (cases "j = i") auto
    qed
    have all': "(\<forall>j. Suc i \<le> j \<and> j < m \<longrightarrow> gc (cloud_request es j)) \<Longrightarrow>
               (\<forall>j. i \<le> j \<and> j < m \<longrightarrow> gc (cloud_request es j))"
    proof (intro allI impI)
      fix j assume a: "\<forall>j. Suc i \<le> j \<and> j < m \<longrightarrow> gc (cloud_request es j)" and "i \<le> j \<and> j < m"
      then show "gc (cloud_request es j)" using True by (cases "j = i") auto
    qed
    have res': "(cloud_loop gc rp es i s = Inr t \<and> m = length es \<and>
               (\<forall>j. i \<le> j \<and> j < m \<longrightarrow> gc (cloud_request es j))) \<or>
            (cloud_loop gc rp es i s = Inl t \<and> i < m \<and> \<not> gc (cloud_request es (m - 1)))"
      using res
    proof (elim disjE conjE)
      assume "cloud_loop gc rp es (Suc i) ?s' = Inr t" and "m = length es"
        and "\<forall>j. Suc i \<le> j \<and> j < m \<longrightarrow> gc (cloud_request es j)"
      with step all' show ?thesis by simp
    next
      assume "cloud_loop gc rp es (Suc i) ?s' = Inl t" and "Suc i < m"
        and "\<not> gc (cloud_request es (m - 1))"
      with step show ?thesis by simp
    qed
    have eff': "effects t = effects s @ concat (map (iteration gc rp es) [i..<m])"
      using eff up by simp
    have rest': "slot t = slot s" "entries (app t) = entries (app s)"
        "lastSyncTime (app t) = lastSyncTime (app s)" "isSyncing (app t) = isSyncing (app s)"
        "cloudStatus (app t) = cloudStatus (app s)"
      using rest by simp_all
    from m(1) have im: "i \<le> m" by simp
    from im m(2) pre' res' eff' rest' show ?thesis by blast
  qed
qed


lemma calls_append: "calls (fs @ gs) = calls fs @ calls gs"
  by (induction fs rule: calls.induct) simp_all

lemma calls_iterations:
  "calls (concat (map (iteration gc rp es) js)) =
     map (\<lambda>j. (cloud_request es j, gc (cloud_request es j))) js"
  by (induction js) (simp_all add: calls_append iteration_def)

text \<open>
  Claim C4. Let the storage accept the write of the snapshot, the call for the entry at
  index \<open>k\<close> (the claim's entry \<open>k + 1\<close>) be rejected and the calls for all earlier
  entries resolve. Then the pass writes the snapshot
  to the slot, runs the iterations \<open>0, \<dots>, k\<close> in order and nothing for later entries, logs
  the error and raises the failure alert; its remote calls are exactly one per entry
  \<open>0, \<dots>, k\<close> in order; at the end the slot still holds the snapshot written at the start,
  the entries are unchanged, \<open>lastSyncTime\<close> is not advanced and the status is \<open>error\<close>.
\<close>

theorem mirror_stops_at_first_failure:
  assumes "k < length (entries (app s))"
    and "\<forall>j<k. generateContent (cloud_request (entries (app s)) j)"
    and "\<not> generateContent (cloud_request (entries (app s)) k)"
    and "quota_allows (JSON_stringify \<lparr> entries' = entries (app s), lastUpdated = now \<rparr>)"
  shows "effects (saveToCloud_v1 JSON_stringify quota_allows now generateContent round_percent s) =
           effects s @
           [SetSyncProgress 0,
            SetItem (JSON_stringify \<lparr> entries' = entries (app s), lastUpdated = now \<rparr>)] @
           concat (map (iteration generateContent round_percent (entries (app s))) [0..<Suc k]) @
           [ConsoleError, Alert CloudFailureAlert, SetSyncProgress 0] \<and>
         calls (effects (saveToCloud_v1 JSON_stringify quota_allows now generateContent round_percent s)) =
           calls (effects s) @ map (\<lambda>j. (cloud_request (entries (app s)) j, j < k)) [0..<Suc k] \<and>
         slot (saveToCloud_v1 JSON_stringify quota_allows now generateContent round_percent s) =
           Some (JSON_stringify \<lparr> entries' = entries (app s), lastUpdated = now \<rparr>) \<and>
         entries (app (saveToCloud_v1 JSON_stringify quota_allows now generateContent round_percent s)) =
           entries (app s) \<and>
         lastSyncTime (app (saveToCloud_v1 JSON_stringify quota_allows now generateContent round_percent s)) =
           lastSyncTime (app s) \<and>
         cloudStatus (app (saveToCloud_v1 JSON_stringify quota_allows now generateContent round_percent s)) = Error \<and>
         isSyncing (app (saveToCloud_v1 JSON_stringify quota_allows now generateContent round_percent s)) = False"
proof -
  let ?es = "entries (app s)"
  let ?text = "JSON_stringify \<lparr> entries' = ?es, lastUpdated = now \<rparr>"
  let ?s2 = "s\<lparr> app := (app s)\<lparr> isSyncing := True, cloudStatus := Loading, syncProgress := 0 \<rparr>,
               effects := effects s @ [SetSyncProgress 0],
               slot := Some ?text,
               effects := (effects s @ [SetSyncProgress 0]) @ [SetItem ?text] \<rparr>"
  from cloud_loop_run [of 0 ?es generateContent round_percent ?s2] obtain m t where
    m: "m \<le> length ?es"
    and pre: "\<forall>j. 0 \<le> j \<and> Suc j < m \<longrightarrow> generateContent (cloud_request ?es j)"
    and res: "(cloud_loop generateContent round_percent ?es 0 ?s2 = Inr t \<and> m = length ?es \<and>
                 (\<forall>j. 0 \<le> j \<and> j < m \<longrightarrow> generateContent (cloud_request ?es j))) \<or>
              (cloud_loop generateContent round_percent ?es 0 ?s2 = Inl t \<and> 0 < m \<and>
                 \<not> generateContent (cloud_request ?es (m - 1)))"
    and eff: "effects t = effects ?s2 @ concat (map (iteration generateContent round_percent ?es) [0..<m])"
    and rest: "slot t = slot ?s2" "entries (app t) = entries (app ?s2)"
      "lastSyncTime (app t) = lastSyncTime (app ?s2)"
    by blast
  have inl: "cloud_loop generateContent round_percent ?es 0 ?s2 = Inl t"
    and mk: "m = Suc k"
  proof -
    from res assms(1,3) have l: "cloud_loop generateContent round_percent ?es 0 ?s2 = Inl t"
      and m0: "0 < m" and rej: "\<not> generateContent (cloud_request ?es (m - 1))"
      by auto
    show "cloud_loop generateContent round_percent ?es 0 ?s2 = Inl t" by (rule l)
    have "\<not> m - 1 < k" using assms(2) rej by blast
    moreover have "\<not> k < m - 1"
    proof
      assume "k < m - 1"
      then have "Suc k < m" by simp
      with pre have "generateContent (cloud_request ?es k)" by simp
      with assms(3) show False by simp
    qed
    ultimately show "m = Suc k" using m0 by simp
  qed
  from assms(1) have ne: "length ?es \<noteq> 0" by auto
  have run: "saveToCloud_v1 JSON_stringify quota_allows now generateContent round_percent s =
               t\<lparr> app := (app t)\<lparr> cloudStatus := Error \<rparr>,
                  effects := effects t @ [ConsoleError, Alert CloudFailureAlert] \<rparr>
                \<lparr> app := (app t)\<lparr> cloudStatus := Error, isSyncing := False, syncProgress := 0 \<rparr>,
                  effects := (effects t @ [ConsoleError, Alert CloudFailureAlert]) @ [SetSyncProgress 0] \<rparr>"
    using ne inl assms(4) by (simp add: saveToCloud_v1_def Let_def)
  have e: "effects (saveToCloud_v1 JSON_stringify quota_allows now generateContent round_percent s) =
           effects s @ [SetSyncProgress 0, SetItem ?text] @
           concat (map (iteration generateContent round_percent ?es) [0..<Suc k]) @
           [ConsoleError, Alert CloudFailureAlert, SetSyncProgress 0]"
    unfolding run using eff mk by simp
  have ok: "map (\<lambda>j. (cloud_request ?es j, generateContent (cloud_request ?es j))) [0..<Suc k] =
            map (\<lambda>j. (cloud_request ?es j, j < k)) [0..<Suc k]"
  proof (rule map_cong [OF refl])
    fix j assume "j \<in> set [0..<Suc k]"
    then have "j < k \<or> j = k" by auto
    with assms(2,3) show "(cloud_request ?es j, generateContent (cloud_request ?es j)) =
                          (cloud_request ?es j, j < k)" by auto
  qed
  have c: "calls (effects (saveToCloud_v1 JSON_stringify quota_allows now generateContent round_percent s)) =
           calls (effects s) @ map (\<lambda>j. (cloud_request ?es j, j < k)) [0..<Suc k]"
    unfolding e by (simp only: calls_append calls_iterations ok) simp
  have r: "slot (saveToCloud_v1 JSON_stringify quota_allows now generateContent round_percent s) = Some ?text"
    "entries (app (saveToCloud_v1 JSON_stringify quota_allows now generateContent round_percent s)) = ?es"
    "lastSyncTime (app (saveToCloud_v1 JSON_stringify quota_allows now generateContent round_percent s)) =
       lastSyncTime (app s)"
    "cloudStatus (app (saveToCloud_v1 JSON_stringify quota_allows now generateContent round_percent s)) = Error"
    "isSyncing (app (saveToCloud_v1 JSON_stringify quota_allows now generateContent round_percent s)) = False"
    unfolding run using rest by simp_all
  from e c r show ?thesis by blast
qed


lemma session_of_simps:
  "entries (app (session_of es)) = es" "effects (session_of es) = []"
  "slot (session_of es) = None" "lastSyncTime (app (session_of es)) = None"
  by (simp_all add: session_of_def fresh_session_def initial_state_def)

lemma three_entries_requests:
  "length three_entries = 3"
  "r_number (cloud_request three_entries j) = j + 1"
  by (simp_all add: three_entries_def cloud_request_def Let_def)

theorem mirror_stops_at_first_failure_witness:
  "(1::nat) < length (entries (app (session_of three_entries))) \<and>
   (\<lambda>r. r_number r \<noteq> 2) (cloud_request (entries (app (session_of three_entries))) 0) \<and>
   \<not> (\<lambda>r. r_number r \<noteq> 2) (cloud_request (entries (app (session_of three_entries))) 1) \<and>
   calls (effects (saveToCloud_v1 (\<lambda>d. ''snapshot'') (\<lambda>t. True) 1700000000000 (\<lambda>r. r_number r \<noteq> 2)
                     exact_percent (session_of three_entries))) =
     [(cloud_request three_entries 0, True), (cloud_request three_entries 1, False)] \<and>
   slot (saveToCloud_v1 (\<lambda>d. ''snapshot'') (\<lambda>t. True) 1700000000000 (\<lambda>r. r_number r \<noteq> 2)
                     exact_percent (session_of three_entries)) = Some ''snapshot'' \<and>
   Alert CloudFailureAlert \<in> set (effects (saveToCloud_v1 (\<lambda>d. ''snapshot'') (\<lambda>t. True) 1700000000000
                     (\<lambda>r. r_number r \<noteq> 2) exact_percent (session_of three_entries)))"
proof -
  have h1: "(1::nat) < length (entries (app (session_of three_entries)))"
    by (simp add: session_of_simps three_entries_requests)
  have h2: "\<forall>j<1. (\<lambda>r. r_number r \<noteq> 2) (cloud_request (entries (app (session_of three_entries))) j)"
    by (simp add: session_of_simps three_entries_requests)
  have h3: "\<not> (\<lambda>r. r_number r \<noteq> 2) (cloud_request (entries (app (session_of three_entries))) 1)"
    by (simp add: session_of_simps three_entries_requests)
  have u: "[0..<Suc 1] = [0, 1]" by (simp add: upt_rec)
  have h4: "(\<lambda>t::string. True) ((\<lambda>d::SyncData. ''snapshot'')
              \<lparr> entries' = entries (app (session_of three_entries)), lastUpdated = 1700000000000 \<rparr>)"
    by simp
  note T = mirror_stops_at_first_failure [where quota_allows = "\<lambda>t. True"
      and JSON_stringify = "\<lambda>d. ''snapshot''" and now = 1700000000000
      and round_percent = exact_percent and generateContent = "\<lambda>r. r_number r \<noteq> 2"
      and s = "session_of three_entries" and k = 1, OF h1 h2 h3 h4]
  from T [THEN conjunct2, THEN conjunct1]
  have c: "calls (effects (saveToCloud_v1 (\<lambda>d. ''snapshot'') (\<lambda>t. True) 1700000000000 (\<lambda>r. r_number r \<noteq> 2)
                     exact_percent (session_of three_entries))) =
     [(cloud_request three_entries 0, True), (cloud_request three_entries 1, False)]"
    by (simp add: session_of_simps u)
  from T [THEN conjunct2, THEN conjunct2, THEN conjunct1]
  have sl: "slot (saveToCloud_v1 (\<lambda>d. ''snapshot'') (\<lambda>t. True) 1700000000000 (\<lambda>r. r_number r \<noteq> 2)
                     exact_percent (session_of three_entries)) = Some ''snapshot''"
    by simp
  from T [THEN conjunct1]
  have al: "Alert CloudFailureAlert \<in> set (effects (saveToCloud_v1 (\<lambda>d. ''snapshot'') (\<lambda>t. True) 1700000000000
                     (\<lambda>r. r_number r \<noteq> 2) exact_percent (session_of three_entries)))"
    by simp
  have h2': "(\<lambda>r. r_number r \<noteq> 2) (cloud_request (entries (app (session_of three_entries))) 0)"
    by (simp add: session_of_simps three_entries_requests)
  from h1 h2' h3 c sl al show ?thesis by blast
qed

lemma saveToCloud_v1_quota_exceeded:
  assumes "entries (app s) \<noteq> []"
    and "\<not> quota_allows (JSON_stringify \<lparr> entries' = entries (app s), lastUpdated = now \<rparr>)"
  shows "saveToCloud_v1 JSON_stringify quota_allows now generateContent round_percent s =
           s\<lparr> app := (app s)\<lparr> isSyncing := False, cloudStatus := Error, syncProgress := 0 \<rparr>,
               effects := effects s @
                 [SetSyncProgress 0, ConsoleError, Alert CloudFailureAlert, SetSyncProgress 0] \<rparr>"
  using assms by (simp add: saveToCloud_v1_def Let_def)

text \<open>
  Claim C8, as amended. In a pass over a non-empty list of \<open>n\<close> entries, some number
  \<open>m \<le> n\<close> of entries is reached: none when the storage refuses the snapshot, at least
  one otherwise. For every reached entry \<open>i\<close> the progress value
  \<open>Math.round(((i + 1) / n) * 100)\<close> is reported immediately before the remote call for
  entry \<open>i\<close> is made, whether that call then resolves or is rejected; the calls of all
  reached entries but the last resolve; and the pass ends either after the last entry with
  the success alert, or after a refused write or a rejected call with the failure alert.
\<close>

theorem progress_reported_before_call:
  assumes "entries (app s) \<noteq> []"
  shows "\<exists>m written tail. m \<le> length (entries (app s)) \<and>
           effects (saveToCloud_v1 JSON_stringify quota_allows now generateContent round_percent s) =
             effects s @ [SetSyncProgress 0] @ written @
             concat (map (\<lambda>i. [SetSyncProgress (round_percent (i + 1) (length (entries (app s)))),
                                GenerateContent (cloud_request (entries (app s)) i)
                                  (generateContent (cloud_request (entries (app s)) i))])
                      [0..<m]) @
             tail \<and>
           (\<forall>i. Suc i < m \<longrightarrow> generateContent (cloud_request (entries (app s)) i)) \<and>
           (quota_allows (JSON_stringify \<lparr> entries' = entries (app s), lastUpdated = now \<rparr>) \<and>
              written = [SetItem (JSON_stringify \<lparr> entries' = entries (app s), lastUpdated = now \<rparr>)] \<and>
              0 < m \<and>
              (tail = [SetTimeoutIdle, Alert CloudSuccessAlert, SetSyncProgress 0] \<and>
                 m = length (entries (app s)) \<and>
                 generateContent (cloud_request (entries (app s)) (m - 1)) \<or>
               tail = [ConsoleError, Alert CloudFailureAlert, SetSyncProgress 0] \<and>
                 \<not> generateContent (cloud_request (entries (app s)) (m - 1))) \<or>
            \<not> quota_allows (JSON_stringify \<lparr> entries' = entries (app s), lastUpdated = now \<rparr>) \<and>
              written = [] \<and> m = 0 \<and>
              tail = [ConsoleError, Alert CloudFailureAlert, SetSyncProgress 0])"
proof (cases "quota_allows (JSON_stringify \<lparr> entries' = entries (app s), lastUpdated = now \<rparr>)")
  case False
  let ?it = "\<lambda>i. [SetSyncProgress (round_percent (i + 1) (length (entries (app s)))),
                    GenerateContent (cloud_request (entries (app s)) i)
                      (generateContent (cloud_request (entries (app s)) i))]"
  have "effects (saveToCloud_v1 JSON_stringify quota_allows now generateContent round_percent s) =
          effects s @ [SetSyncProgress 0] @ [] @ concat (map ?it [0..<0]) @
          [ConsoleError, Alert CloudFailureAlert, SetSyncProgress 0]"
    unfolding saveToCloud_v1_quota_exceeded [where quota_allows = quota_allows
        and JSON_stringify = JSON_stringify and s = s and now = now, OF assms False] by simp
  with False show ?thesis
    by (intro exI [of _ 0] exI [of _ "[]"]
        exI [of _ "[ConsoleError, Alert CloudFailureAlert, SetSyncProgress 0]"]) simp
next
  case True
  let ?es = "entries (app s)"
  let ?text = "JSON_stringify \<lparr> entries' = ?es, lastUpdated = now \<rparr>"
  let ?s2 = "s\<lparr> app := (app s)\<lparr> isSyncing := True, cloudStatus := Loading, syncProgress := 0 \<rparr>,
               effects := effects s @ [SetSyncProgress 0],
               slot := Some ?text,
               effects := (effects s @ [SetSyncProgress 0]) @ [SetItem ?text] \<rparr>"
  let ?it = "\<lambda>i. [SetSyncProgress (round_percent (i + 1) (length ?es)),
                    GenerateContent (cloud_request ?es i) (generateContent (cloud_request ?es i))]"
  have it: "iteration generateContent round_percent ?es = ?it"
    by (rule ext) (simp add: iteration_def)
  from assms have n0: "0 < length ?es" by simp
  from cloud_loop_run [of 0 ?es generateContent round_percent ?s2] obtain m t where
    m: "m \<le> length ?es"
    and pre: "\<forall>j. 0 \<le> j \<and> Suc j < m \<longrightarrow> generateContent (cloud_request ?es j)"
    and res: "(cloud_loop generateContent round_percent ?es 0 ?s2 = Inr t \<and> m = length ?es \<and>
                 (\<forall>j. 0 \<le> j \<and> j < m \<longrightarrow> generateContent (cloud_request ?es j))) \<or>
              (cloud_loop generateContent round_percent ?es 0 ?s2 = Inl t \<and> 0 < m \<and>
                 \<not> generateContent (cloud_request ?es (m - 1)))"
    and eff: "effects t = effects ?s2 @ concat (map (iteration generateContent round_percent ?es) [0..<m])"
    by blast
  from pre have pre': "\<forall>i. Suc i < m \<longrightarrow> generateContent (cloud_request ?es i)" by simp
  from res show ?thesis
  proof (elim disjE conjE)
    assume r: "cloud_loop generateContent round_percent ?es 0 ?s2 = Inr t"
      and ml: "m = length ?es"
      and all: "\<forall>j. 0 \<le> j \<and> j < m \<longrightarrow> generateContent (cloud_request ?es j)"
    from ml n0 have m0: "0 < m" by simp
    with all have last: "generateContent (cloud_request ?es (m - 1))" by simp
    have "effects (saveToCloud_v1 JSON_stringify quota_allows now generateContent round_percent s) =
            effects s @ [SetSyncProgress 0] @ [SetItem ?text] @ concat (map ?it [0..<m]) @
            [SetTimeoutIdle, Alert CloudSuccessAlert, SetSyncProgress 0]"
      using assms True r eff by (simp add: saveToCloud_v1_def Let_def it)
    with m0 m pre' ml last True show ?thesis by blast
  next
    assume l: "cloud_loop generateContent round_percent ?es 0 ?s2 = Inl t"
      and m0: "0 < m"
      and rej: "\<not> generateContent (cloud_request ?es (m - 1))"
    have "effects (saveToCloud_v1 JSON_stringify quota_allows now generateContent round_percent s) =
            effects s @ [SetSyncProgress 0] @ [SetItem ?text] @ concat (map ?it [0..<m]) @
            [ConsoleError, Alert CloudFailureAlert, SetSyncProgress 0]"
      using assms True l eff by (simp add: saveToCloud_v1_def Let_def it)
    with m0 m pre' rej True show ?thesis by blast
  qed
qed

text \<open>
  The claim as stated fails: with three entries and the second call rejected, the progress
  of the first entry is reported before its call, and the progress 2/3 of the second entry
  is reported although its call never completes.
\<close>

theorem progress_after_call_counterexample:
  "effects (saveToCloud_v1 (\<lambda>d. ''snapshot'') (\<lambda>t. True) 1700000000000 (\<lambda>r. r_number r \<noteq> 2)
              exact_percent (session_of three_entries)) =
     [SetSyncProgress 0, SetItem ''snapshot'',
      SetSyncProgress 33, GenerateContent (cloud_request three_entries 0) True,
      SetSyncProgress 67, GenerateContent (cloud_request three_entries 1) False,
      ConsoleError, Alert CloudFailureAlert, SetSyncProgress 0]"
proof -
  let ?gc = "\<lambda>r. r_number r \<noteq> 2"
  let ?s2 = "(session_of three_entries)\<lparr>
               app := (app (session_of three_entries))\<lparr> isSyncing := True, cloudStatus := Loading,
                                                        syncProgress := 0 \<rparr>,
               effects := effects (session_of three_entries) @ [SetSyncProgress 0],
               slot := Some ''snapshot'',
               effects := (effects (session_of three_entries) @ [SetSyncProgress 0]) @
                          [SetItem ''snapshot''] \<rparr>"
  let ?s3 = "?s2\<lparr> app := (app ?s2)\<lparr> syncProgress := exact_percent (0 + 1) (length three_entries) \<rparr>,
                 effects := effects ?s2 @ iteration ?gc exact_percent three_entries 0 \<rparr>"
  have g0: "?gc (cloud_request three_entries 0)" and g1: "\<not> ?gc (cloud_request three_entries (Suc 0))"
    by (simp_all add: three_entries_requests)
  have l0: "0 < length three_entries" and l1: "Suc 0 < length three_entries"
    by (simp_all add: three_entries_requests)
  have "cloud_loop ?gc exact_percent three_entries 0 ?s2 =
          cloud_loop ?gc exact_percent three_entries (Suc 0) ?s3"
    using l0 g0 by (rule cloud_loop_resolve)
  also have "\<dots> = Inl (?s3\<lparr> app := (app ?s3)\<lparr> syncProgress :=
                                 exact_percent (Suc 0 + 1) (length three_entries) \<rparr>,
                           effects := effects ?s3 @ iteration ?gc exact_percent three_entries (Suc 0) \<rparr>)"
    using l1 g1 by (rule cloud_loop_reject)
  finally have loop: "cloud_loop ?gc exact_percent three_entries 0 ?s2 =
      Inl (?s3\<lparr> app := (app ?s3)\<lparr> syncProgress := exact_percent (Suc 0 + 1) (length three_entries) \<rparr>,
               effects := effects ?s3 @ iteration ?gc exact_percent three_entries (Suc 0) \<rparr>)" .
  have p: "exact_percent (Suc 0) 3 = 33" "exact_percent (Suc (Suc 0)) 3 = 67"
    by (simp_all add: exact_percent_def)
  show ?thesis
    using loop g0 g1
    by (simp add: saveToCloud_v1_def Let_def session_of_simps three_entries_requests
        iteration_def p)
qed

theorem progress_reported_before_call_witness:
  "entries (app (session_of three_entries)) \<noteq> [] \<and>
   (\<exists>m tail. m \<le> 3 \<and>
      effects (saveToCloud_v1 (\<lambda>d. ''snapshot'') (\<lambda>t. True) 1700000000000 (\<lambda>r. r_number r \<noteq> 2)
                 exact_percent (session_of three_entries)) =
        [SetSyncProgress 0, SetItem ''snapshot''] @
        concat (map (\<lambda>i. [SetSyncProgress (exact_percent (i + 1) 3),
                           GenerateContent (cloud_request three_entries i) (i + 1 \<noteq> 2)])
                 [0..<m]) @
        tail)"
proof -
  have h: "entries (app (session_of three_entries)) \<noteq> []"
    by (simp add: session_of_simps three_entries_def)
  from progress_reported_before_call [OF h, where JSON_stringify = "\<lambda>d. ''snapshot''"
      and quota_allows = "\<lambda>t. True"
      and now = 1700000000000 and round_percent = exact_percent
      and generateContent = "\<lambda>r. r_number r \<noteq> 2"]
  obtain m written tail where "m \<le> length (entries (app (session_of three_entries)))"
    and "effects (saveToCloud_v1 (\<lambda>d. ''snapshot'') (\<lambda>t. True) 1700000000000 (\<lambda>r. r_number r \<noteq> 2)
                    exact_percent (session_of three_entries)) =
           effects (session_of three_entries) @ [SetSyncProgress 0] @ written @
           concat (map (\<lambda>i. [SetSyncProgress (exact_percent (i + 1)
                                 (length (entries (app (session_of three_entries))))),
                              GenerateContent (cloud_request (entries (app (session_of three_entries))) i)
                                ((\<lambda>r. r_number r \<noteq> 2)
                                   (cloud_request (entries (app (session_of three_entries))) i))])
                    [0..<m]) @
           tail"
    and "written = [SetItem ((\<lambda>d. ''snapshot'') \<lparr> entries' = entries (app (session_of three_entries)),
                                                  lastUpdated = 1700000000000 \<rparr>)]"
    by auto
  then have "m \<le> 3 \<and>
      effects (saveToCloud_v1 (\<lambda>d. ''snapshot'') (\<lambda>t. True) 1700000000000 (\<lambda>r. r_number r \<noteq> 2)
                 exact_percent (session_of three_entries)) =
        [SetSyncProgress 0, SetItem ''snapshot''] @
        concat (map (\<lambda>i. [SetSyncProgress (exact_percent (i + 1) 3),
                           GenerateContent (cloud_request three_entries i) (i + 1 \<noteq> 2)])
                 [0..<m]) @
        tail"
    by (simp add: session_of_simps three_entries_requests)
  with h show ?thesis by blast
qed


section \<open>Round trip through the slot\<close>

lemma saveToCloud_v0_slot:
  "slot (saveToCloud_v0 JSON_stringify JSON_parse STORAGE_KEY quota_allows now s) =
     (if quota_allows (JSON_stringify \<lparr> entries' = entries (app s), lastUpdated = now \<rparr>)
      then Some (JSON_stringify \<lparr> entries' = entries (app s), lastUpdated = now \<rparr>)
      else slot s)"
  by (simp add: saveToCloud_v0_def Let_def handleStorageChange_def storage_signal_def)

lemma saveToCloud_v1_slot:
  assumes "entries (app s) \<noteq> []"
  shows "slot (saveToCloud_v1 JSON_stringify quota_allows now generateContent round_percent s) =
           (if quota_allows (JSON_stringify \<lparr> entries' = entries (app s), lastUpdated = now \<rparr>)
            then Some (JSON_stringify \<lparr> entries' = entries (app s), lastUpdated = now \<rparr>)
            else slot s)"
proof (cases "quota_allows (JSON_stringify \<lparr> entries' = entries (app s), lastUpdated = now \<rparr>)")
  case False
  then show ?thesis
    unfolding saveToCloud_v1_quota_exceeded [where quota_allows = quota_allows
        and JSON_stringify = JSON_stringify and s = s and now = now, OF assms False] by simp
next
  case True
  let ?es = "entries (app s)"
  let ?text = "JSON_stringify \<lparr> entries' = ?es, lastUpdated = now \<rparr>"
  let ?s2 = "s\<lparr> app := (app s)\<lparr> isSyncing := True, cloudStatus := Loading, syncProgress := 0 \<rparr>,
               effects := effects s @ [SetSyncProgress 0],
               slot := Some ?text,
               effects := (effects s @ [SetSyncProgress 0]) @ [SetItem ?text] \<rparr>"
  from cloud_loop_run [of 0 ?es generateContent round_percent ?s2] obtain t where
    res: "cloud_loop generateContent round_percent ?es 0 ?s2 = Inr t \<or>
          cloud_loop generateContent round_percent ?es 0 ?s2 = Inl t"
    and sl: "slot t = slot ?s2"
    by blast
  from res show ?thesis
  proof
    assume "cloud_loop generateContent round_percent ?es 0 ?s2 = Inr t"
    with assms sl True show ?thesis by (simp add: saveToCloud_v1_def Let_def)
  next
    assume "cloud_loop generateContent round_percent ?es 0 ?s2 = Inl t"
    with assms sl True show ?thesis by (simp add: saveToCloud_v1_def Let_def)
  qed
qed

lemma load_v0_stored:
  assumes "JSON_parse saved = Some (JValue (EntryArray es) (Some t))" and "saved \<noteq> []"
  shows "load_v0 JSON_parse TEAM_MEMBERS uuid (fresh_session (Some saved)) =
           Done ((fresh_session (Some saved))\<lparr> app := initial_state\<lparr> entries := es,
                                                                     lastSyncTime := Some t \<rparr> \<rparr>)"
  using assms by (simp add: load_v0_def Let_def fresh_session_def)

lemma load_v1_stored:
  assumes "JSON_parse saved = Some (JValue (EntryArray es) (Some t))" and "saved \<noteq> []" and "t \<noteq> 0"
  shows "load_v1 JSON_parse (fresh_session (Some saved)) =
           Done ((fresh_session (Some saved))\<lparr> app := initial_state\<lparr> entries := es,
                                                                     lastSyncTime := Some t \<rparr> \<rparr>)"
  using assms by (simp add: load_v1_def Let_def fresh_session_def)

text \<open>
  Claim C5, as amended. Let the storage accept the text that \<open>JSON.stringify\<close> makes of
  the snapshot, let that text be non-empty, and let \<open>JSON.parse\<close> read from it an object
  whose entries and timestamp are the snapshot's. Then: after \<open>saveToCloud\<close> of
  \<open>part_000\<close>, the load of \<open>part_000\<close> in a fresh session ends normally with exactly
  the saved entries, in order, and \<open>lastSyncTime\<close> equal to the snapshot's timestamp; so
  does the load of \<open>part_001\<close> when the timestamp is not 0; and so does the load of
  \<open>part_001\<close> after \<open>saveToCloud\<close> of \<open>part_001\<close>, whatever the remote calls do, when
  the timestamp is not 0 and the entry list is not empty.
\<close>

theorem save_load_roundtrip:
  assumes "quota_allows (JSON_stringify \<lparr> entries' = entries (app s), lastUpdated = now \<rparr>)"
    and "JSON_parse (JSON_stringify \<lparr> entries' = entries (app s), lastUpdated = now \<rparr>) =
             Some (JValue (EntryArray (entries (app s))) (Some now))"
    and "JSON_stringify \<lparr> entries' = entries (app s), lastUpdated = now \<rparr> \<noteq> []"
  shows "load_v0 JSON_parse TEAM_MEMBERS uuid
           (fresh_session (slot (saveToCloud_v0 JSON_stringify JSON_parse STORAGE_KEY quota_allows now s))) =
           Done ((fresh_session
                    (Some (JSON_stringify \<lparr> entries' = entries (app s), lastUpdated = now \<rparr>)))
                 \<lparr> app := initial_state\<lparr> entries := entries (app s), lastSyncTime := Some now \<rparr> \<rparr>) \<and>
         (now \<noteq> 0 \<longrightarrow>
            load_v1 JSON_parse
              (fresh_session (slot (saveToCloud_v0 JSON_stringify JSON_parse STORAGE_KEY quota_allows now s))) =
              Done ((fresh_session
                       (Some (JSON_stringify \<lparr> entries' = entries (app s), lastUpdated = now \<rparr>)))
                    \<lparr> app := initial_state\<lparr> entries := entries (app s), lastSyncTime := Some now \<rparr> \<rparr>)) \<and>
         (now \<noteq> 0 \<longrightarrow> entries (app s) \<noteq> [] \<longrightarrow>
            load_v1 JSON_parse
              (fresh_session (slot (saveToCloud_v1 JSON_stringify quota_allows now generateContent
                                      round_percent s))) =
              Done ((fresh_session
                       (Some (JSON_stringify \<lparr> entries' = entries (app s), lastUpdated = now \<rparr>)))
                    \<lparr> app := initial_state\<lparr> entries := entries (app s), lastSyncTime := Some now \<rparr> \<rparr>))"
proof (intro conjI impI)
  let ?text = "JSON_stringify \<lparr> entries' = entries (app s), lastUpdated = now \<rparr>"
  have s0: "slot (saveToCloud_v0 JSON_stringify JSON_parse STORAGE_KEY quota_allows now s) = Some ?text"
    using assms(1) by (simp add: saveToCloud_v0_slot)
  show "load_v0 JSON_parse TEAM_MEMBERS uuid
           (fresh_session (slot (saveToCloud_v0 JSON_stringify JSON_parse STORAGE_KEY quota_allows now s))) =
           Done ((fresh_session (Some ?text))
                 \<lparr> app := initial_state\<lparr> entries := entries (app s), lastSyncTime := Some now \<rparr> \<rparr>)"
    unfolding s0
    by (rule load_v0_stored [where JSON_parse = JSON_parse and saved = ?text
          and es = "entries (app s)" and t = now, OF assms(2,3)])
  {
    assume nz: "now \<noteq> 0"
    note l = load_v1_stored [where JSON_parse = JSON_parse and saved = ?text
        and es = "entries (app s)" and t = now, OF assms(2,3) nz]
    show "load_v1 JSON_parse
              (fresh_session (slot (saveToCloud_v0 JSON_stringify JSON_parse STORAGE_KEY quota_allows now s))) =
              Done ((fresh_session (Some ?text))
                    \<lparr> app := initial_state\<lparr> entries := entries (app s), lastSyncTime := Some now \<rparr> \<rparr>)"
      unfolding s0 by (rule l)
    assume ne: "entries (app s) \<noteq> []"
    have s1: "slot (saveToCloud_v1 JSON_stringify quota_allows now generateContent round_percent s) =
                Some ?text"
      using assms(1) by (simp add: saveToCloud_v1_slot [OF ne])
    show "load_v1 JSON_parse
              (fresh_session (slot (saveToCloud_v1 JSON_stringify quota_allows now generateContent
                                      round_percent s))) =
              Done ((fresh_session (Some ?text))
                    \<lparr> app := initial_state\<lparr> entries := entries (app s), lastSyncTime := Some now \<rparr> \<rparr>)"
      unfolding s1 by (rule l)
  }
qed

text \<open>
  The claim as stated, for every entry list, fails on \<open>part_001\<close>: its \<open>saveToCloud\<close>
  returns at once on the empty list and writes nothing, so the load of a fresh session
  brings back the entries of the older snapshot in the slot.
\<close>

theorem save_empty_list_counterexample:
  "entries (app ((session_of [])\<lparr> slot := Some ''a;b;c;###'' \<rparr>)) = [] \<and>
   load_v1 toy_parse
      (fresh_session (slot (saveToCloud_v1 toy_stringify (\<lambda>t. True) 5 (\<lambda>r. True) exact_percent
                              ((session_of [])\<lparr> slot := Some ''a;b;c;###'' \<rparr>)))) =
     Done ((fresh_session (Some ''a;b;c;###''))
             \<lparr> app := initial_state\<lparr> entries := three_entries, lastSyncTime := Some 3 \<rparr> \<rparr>) \<and>
   three_entries \<noteq> []"
  by (simp add: saveToCloud_v1_def session_of_def fresh_session_def initial_state_def
      load_v1_def toy_parse_def three_entries_def)

text \<open>
  It fails on both variants when the text does not fit the storage (a snapshot with a large
  photo): nothing is written, and the slot keeps what it held.
\<close>

lemma save_quota_exceeded_slot:
  assumes "\<not> quota_allows (JSON_stringify \<lparr> entries' = entries (app s), lastUpdated = now \<rparr>)"
  shows "slot (saveToCloud_v0 JSON_stringify JSON_parse STORAGE_KEY quota_allows now s) = slot s"
    and "UncaughtError \<in>
           set (effects (saveToCloud_v0 JSON_stringify JSON_parse STORAGE_KEY quota_allows now s))"
    and "entries (app s) \<noteq> [] \<Longrightarrow>
           slot (saveToCloud_v1 JSON_stringify quota_allows now generateContent round_percent s) = slot s"
  using assms
  by (simp_all add: saveToCloud_v0_slot saveToCloud_v1_slot) (simp add: saveToCloud_v0_def Let_def)

theorem save_load_roundtrip_witness:
  "(\<lambda>t::string. True) (toy_stringify \<lparr> entries' = entries (app (session_of three_entries)),
                                       lastUpdated = 3 \<rparr>) \<and>
   toy_stringify \<lparr> entries' = entries (app (session_of three_entries)), lastUpdated = 3 \<rparr> =
     ''a;b;c;###'' \<and>
   toy_parse ''a;b;c;###'' = Some (JValue (EntryArray three_entries) (Some 3)) \<and>
   (3::int) \<noteq> 0 \<and> entries (app (session_of three_entries)) \<noteq> [] \<and>
   load_v0 toy_parse [''Dana''] ''u''
     (fresh_session (slot (saveToCloud_v0 toy_stringify toy_parse ''dresses'' (\<lambda>t. True) 3
                             (session_of three_entries)))) =
     Done ((fresh_session (Some ''a;b;c;###''))
             \<lparr> app := initial_state\<lparr> entries := three_entries, lastSyncTime := Some 3 \<rparr> \<rparr>) \<and>
   load_v1 toy_parse
     (fresh_session (slot (saveToCloud_v1 toy_stringify (\<lambda>t. True) 3 (\<lambda>r. r_number r \<noteq> 2)
                             exact_percent (session_of three_entries)))) =
     Done ((fresh_session (Some ''a;b;c;###''))
             \<lparr> app := initial_state\<lparr> entries := three_entries, lastSyncTime := Some 3 \<rparr> \<rparr>)"
proof -
  have es: "entries (app (session_of three_entries)) = three_entries"
    by (simp add: session_of_simps)
  have str: "toy_stringify \<lparr> entries' = three_entries, lastUpdated = 3 \<rparr> = ''a;b;c;###''"
    by (simp add: toy_stringify_def three_entries_def newEntry_def numeral_3_eq_3)
  have str': "toy_stringify \<lparr> entries' = entries (app (session_of three_entries)), lastUpdated = 3 \<rparr> =
     ''a;b;c;###''"
    by (simp only: es str)
  have prs: "toy_parse ''a;b;c;###'' = Some (JValue (EntryArray three_entries) (Some 3))"
    by (simp add: toy_parse_def three_entries_def)
  have h1: "(\<lambda>t::string. True) (toy_stringify \<lparr> entries' = entries (app (session_of three_entries)),
                                       lastUpdated = 3 \<rparr>)"
    by simp
  have h2: "toy_parse (toy_stringify \<lparr> entries' = entries (app (session_of three_entries)),
                                        lastUpdated = 3 \<rparr>) =
              Some (JValue (EntryArray (entries (app (session_of three_entries)))) (Some 3))"
    by (simp only: es str prs)
  have h3: "toy_stringify \<lparr> entries' = entries (app (session_of three_entries)), lastUpdated = 3 \<rparr> \<noteq> []"
    by (simp only: str') simp
  have h4: "(3::int) \<noteq> 0" by simp
  have h5: "entries (app (session_of three_entries)) \<noteq> []"
    by (simp add: session_of_simps three_entries_def)
  note T = save_load_roundtrip [where JSON_parse = toy_parse and JSON_stringify = toy_stringify
      and s = "session_of three_entries" and now = 3 and quota_allows = "\<lambda>t. True"
      and TEAM_MEMBERS = "[''Dana'']" and uuid = "''u''"
      and STORAGE_KEY = "''dresses''" and generateContent = "\<lambda>r. r_number r \<noteq> 2"
      and round_percent = exact_percent, OF h1 h2 h3, unfolded es str]
  from T [THEN conjunct1]
  have a: "load_v0 toy_parse [''Dana''] ''u''
     (fresh_session (slot (saveToCloud_v0 toy_stringify toy_parse ''dresses'' (\<lambda>t. True) 3
                             (session_of three_entries)))) =
     Done ((fresh_session (Some ''a;b;c;###''))
             \<lparr> app := initial_state\<lparr> entries := three_entries, lastSyncTime := Some 3 \<rparr> \<rparr>)" .
  from T [THEN conjunct2, THEN conjunct2] h4 h5 [unfolded es]
  have b: "load_v1 toy_parse
     (fresh_session (slot (saveToCloud_v1 toy_stringify (\<lambda>t. True) 3 (\<lambda>r. r_number r \<noteq> 2)
                             exact_percent (session_of three_entries)))) =
     Done ((fresh_session (Some ''a;b;c;###''))
             \<lparr> app := initial_state\<lparr> entries := three_entries, lastSyncTime := Some 3 \<rparr> \<rparr>)"
    by blast
  from h1 str' prs h4 h5 a b show ?thesis by blast
qed


section \<open>Properties of the image normalizer\<close>

lemma round_half_even_close: "\<bar>of_int (round_half_even y) - y\<bar> \<le> 1 / 2"
proof -
  have "of_int \<lfloor>y\<rfloor> \<le> y" and "y < of_int \<lfloor>y\<rfloor> + 1" by linarith+
  then show ?thesis
    by (auto simp: round_half_even_def Let_def)
qed

lemma round_half_even_nonneg: "0 \<le> y \<Longrightarrow> 0 \<le> round_half_even y"
  by (auto simp: round_half_even_def Let_def)

lemma ulp_le:
  assumes "x \<noteq> 0"
  shows "(2::real) powr (of_int (\<lfloor>log 2 \<bar>x\<bar>\<rfloor> - 52)) \<le> \<bar>x\<bar> / 2 ^ 52"
proof -
  define k where "k = \<lfloor>log 2 \<bar>x\<bar>\<rfloor>"
  from assms have pos: "0 < \<bar>x\<bar>" by simp
  have le: "of_int k \<le> log 2 \<bar>x\<bar>" by (simp add: k_def)
  have "(2::real) powr (of_int k) \<le> 2 powr (log 2 \<bar>x\<bar>)"
    using le by (rule powr_mono) simp
  also have "\<dots> = \<bar>x\<bar>" using pos by simp
  finally have a: "(2::real) powr (of_int k) \<le> \<bar>x\<bar>" .
  have b: "(2::real) powr (- 52) = 1 / 2 ^ 52"
    by (simp only: powr_minus powr_numeral inverse_eq_divide)
  have "of_int (k - 52) = (of_int k :: real) + (- 52)" by simp
  then have "(2::real) powr (of_int (k - 52)) = 2 powr (of_int k) * 2 powr (- 52)"
    by (simp only: powr_add)
  also have "\<dots> = 2 powr (of_int k) / 2 ^ 52" by (simp only: b) simp
  also have "\<dots> \<le> \<bar>x\<bar> / 2 ^ 52" using a by (rule divide_right_mono) simp
  finally show ?thesis by (simp only: k_def)
qed

lemma round_double_close: "\<bar>round_double x - x\<bar> \<le> \<bar>x\<bar> / 2 ^ 53"
proof (cases "x = 0")
  case True
  then show ?thesis by (simp add: round_double_def)
next
  case False
  define ulp :: real where "ulp = 2 powr (of_int (\<lfloor>log 2 \<bar>x\<bar>\<rfloor> - 52))"
  have pos: "0 < ulp" by (simp add: ulp_def)
  have rd: "round_double x = of_int (round_half_even (x / ulp)) * ulp"
    using False by (simp add: round_double_def Let_def ulp_def)
  have "round_double x - x = (of_int (round_half_even (x / ulp)) - x / ulp) * ulp"
    using pos by (simp add: rd algebra_simps)
  then have "\<bar>round_double x - x\<bar> = \<bar>of_int (round_half_even (x / ulp)) - x / ulp\<bar> * ulp"
    using pos by (simp add: abs_mult)
  also have "\<dots> \<le> (1 / 2) * ulp"
    using pos round_half_even_close [of "x / ulp"] by (intro mult_right_mono) simp_all
  also have "\<dots> \<le> (1 / 2) * (\<bar>x\<bar> / 2 ^ 52)"
    using ulp_le [OF False] by (simp add: ulp_def)
  finally show ?thesis by simp
qed

lemma round_double_nonneg: "0 \<le> x \<Longrightarrow> 0 \<le> round_double x"
  by (simp add: round_double_def Let_def round_half_even_nonneg)


text \<open>The scaled side \<open>a * (600 / b)\<close>, computed in doubles, against the exact value.\<close>

lemma scaled_side_close:
  assumes "a \<le> b" and "0 < b"
  shows "0 \<le> double_mul (real a) (double_div 600 (real b))"
    and "\<bar>double_mul (real a) (double_div 600 (real b)) - real a * 600 / real b\<bar> \<le> 1 / 2 ^ 40"
proof -
  define q where "q = double_div 600 (real b)"
  define x0 :: real where "x0 = 600 / real b"
  define x :: real where "x = real a * 600 / real b"
  have x0: "0 \<le> x0" by (simp add: x0_def)
  have xx: "x = real a * x0" by (simp add: x_def x0_def)
  have x_lo: "0 \<le> x" by (simp add: x_def)
  have x_hi: "x \<le> 600"
    using assms by (simp add: x_def divide_le_eq)
  have q_close: "\<bar>q - x0\<bar> \<le> x0 / 2 ^ 53"
    using round_double_close [of x0] x0 by (simp add: q_def double_div_def x0_def)
  have q_lo: "0 \<le> q"
    using x0 by (simp add: q_def double_div_def round_double_nonneg x0_def)
  have p_lo: "0 \<le> real a * q" using q_lo by simp
  have "\<bar>real a * q - x\<bar> = real a * \<bar>q - x0\<bar>"
    by (simp add: xx abs_mult right_diff_distrib [symmetric])
  also have "\<dots> \<le> real a * (x0 / 2 ^ 53)"
    using q_close by (intro mult_left_mono) simp_all
  finally have p_close: "\<bar>real a * q - x\<bar> \<le> x / 2 ^ 53" by (simp add: xx)
  have "x / 2 ^ 53 \<le> x" using x_lo by (simp add: divide_le_eq)
  with p_close have p_hi: "real a * q \<le> 2 * x" by linarith
  have r_close: "\<bar>round_double (real a * q) - real a * q\<bar> \<le> (real a * q) / 2 ^ 53"
    using round_double_close [of "real a * q"] p_lo by simp
  have "(real a * q) / 2 ^ 53 \<le> (2 * x) / 2 ^ 53"
    using p_hi by (rule divide_right_mono) simp
  with r_close p_close have "\<bar>round_double (real a * q) - x\<bar> \<le> (2 * x) / 2 ^ 53 + x / 2 ^ 53"
    by linarith
  also have "\<dots> = 3 * x / 2 ^ 53" by simp
  also have "\<dots> \<le> 3 * 600 / 2 ^ 53"
    using x_hi by (intro divide_right_mono) simp_all
  also have "\<dots> \<le> 1 / 2 ^ 40" by simp
  finally show "\<bar>double_mul (real a) (double_div 600 (real b)) - real a * 600 / real b\<bar> \<le> 1 / 2 ^ 40"
    by (simp add: double_mul_def q_def x_def)
  show "0 \<le> double_mul (real a) (double_div 600 (real b))"
    using p_lo by (simp add: double_mul_def q_def round_double_nonneg)
qed

text \<open>Truncating a number that is within \<open>d\<close> of a non-negative exact value \<open>x\<close>.\<close>

lemma truncated_close:
  fixes r x d :: real
  assumes "\<bar>r - x\<bar> \<le> d" and "0 \<le> x"
  shows "\<bar>real (nat \<lfloor>r\<rfloor>) - x\<bar> < 1 + d"
proof (cases "0 \<le> r")
  case True
  then have "real (nat \<lfloor>r\<rfloor>) = of_int \<lfloor>r\<rfloor>" by simp
  moreover have "of_int \<lfloor>r\<rfloor> \<le> r" and "r - 1 < of_int \<lfloor>r\<rfloor>" by linarith+
  ultimately show ?thesis using assms(1) by linarith
next
  case False
  then have "nat \<lfloor>r\<rfloor> = 0" by simp
  with False assms show ?thesis by simp
qed

lemma truncated_bound:
  fixes r x d :: real
  assumes "\<bar>r - x\<bar> \<le> d" and "d < 1" and "x \<le> real n"
  shows "nat \<lfloor>r\<rfloor> \<le> n"
proof -
  from assms have "r < real n + 1" by linarith
  then have "r < of_int (int n + 1)" by simp
  then have "\<lfloor>r\<rfloor> < int n + 1" by (simp only: floor_less_iff)
  then show ?thesis by simp
qed

lemma ratio_le:
  assumes "a \<le> b" and "0 < b"
  shows "real a * 600 / real b \<le> 600"
  using assms by (simp add: divide_le_eq)

lemma scaled_side_canvas:
  assumes "a \<le> b" and "0 < b"
  shows "nat \<lfloor>double_mul (real a) (double_div 600 (real b))\<rfloor> \<le> 600"
    and "\<bar>real (nat \<lfloor>double_mul (real a) (double_div 600 (real b))\<rfloor>) - real a * 600 / real b\<bar>
           < 1 + 1 / 2 ^ 40"
proof -
  note c = scaled_side_close(2) [OF assms]
  have d: "(1::real) / 2 ^ 40 < 1" by simp
  have "real a * 600 / real b \<le> real (600::nat)"
    using ratio_le [OF assms] by simp
  with c d show "nat \<lfloor>double_mul (real a) (double_div 600 (real b))\<rfloor> \<le> 600"
    by (rule truncated_bound)
  from c show "\<bar>real (nat \<lfloor>double_mul (real a) (double_div 600 (real b))\<rfloor>) - real a * 600 / real b\<bar>
           < 1 + 1 / 2 ^ 40"
    by (rule truncated_close) simp
qed


text \<open>
  Claim C7, as amended. For every image that decodes, of \<open>w\<close> by \<open>h\<close> pixels, the
  handler resolves, and the image it decodes is the input text itself, which it only reads.
  If both sides are at most 600 the canvas has the size of the image. If the width is the
  longer side and exceeds 600, the canvas is 600 wide and its height, the truncated double
  \<open>h * (600 / w)\<close>, is at most 600 and less than \<open>1 + 2^-40\<close> away from \<open>h * 600 / w\<close>;
  if the height is the longer side (or equal) and exceeds 600, the same holds with the
  sides exchanged. The canvas is encoded as JPEG at quality 0.5 whenever both its sides are
  at least 1; when the scaled side truncates to 0 the canvas has no pixels and
  \<open>toDataURL\<close> returns the empty \<open>data:,\<close>.
\<close>

theorem compressImage_clamps_longer_side:
  assumes "decode input = Some (w, h)"
  shows "\<exists>r. compressImage decode has_ctx input = Some r \<and>
           img_src r = input \<and>
           (w \<le> 600 \<and> h \<le> 600 \<longrightarrow> canvas_width r = w \<and> canvas_height r = h) \<and>
           (600 < w \<and> h < w \<longrightarrow>
              canvas_width r = 600 \<and> canvas_height r \<le> 600 \<and>
              \<bar>real (canvas_height r) - real h * 600 / real w\<bar> < 1 + 1 / 2 ^ 40) \<and>
           (600 < h \<and> w \<le> h \<longrightarrow>
              canvas_height r = 600 \<and> canvas_width r \<le> 600 \<and>
              \<bar>real (canvas_width r) - real w * 600 / real h\<bar> < 1 + 1 / 2 ^ 40) \<and>
           (0 < canvas_width r \<and> 0 < canvas_height r \<longrightarrow>
              dataURL r = Encoded ''image/jpeg'' (1 / 2)) \<and>
           (canvas_width r = 0 \<or> canvas_height r = 0 \<longrightarrow> dataURL r = NoPixels)"
proof -
  obtain width height where sz: "scaled_size w h = (width, height)"
    by (cases "scaled_size w h")
  let ?r = "\<lparr> img_src = input,
              canvas_width = nat \<lfloor>width\<rfloor>,
              canvas_height = nat \<lfloor>height\<rfloor>,
              drawImage = (if has_ctx then Some (width, height) else None),
              dataURL = toDataURL (nat \<lfloor>width\<rfloor>) (nat \<lfloor>height\<rfloor>) ''image/jpeg'' (1 / 2) \<rparr>"
  have run: "compressImage decode has_ctx input = Some ?r"
    using assms sz by (simp add: compressImage_def)
  have small: "w \<le> 600 \<and> h \<le> 600 \<longrightarrow> canvas_width ?r = w \<and> canvas_height ?r = h"
    using sz by (auto simp: scaled_size_def MAX_SIZE_def split: if_splits)
  have landscape: "600 < w \<and> h < w \<longrightarrow>
              canvas_width ?r = 600 \<and> canvas_height ?r \<le> 600 \<and>
              \<bar>real (canvas_height ?r) - real h * 600 / real w\<bar> < 1 + 1 / 2 ^ 40"
  proof
    assume a: "600 < w \<and> h < w"
    then have le: "h \<le> w" and pos: "0 < w" by simp_all
    from a sz have "width = 600" and "height = double_mul (real h) (double_div 600 (real w))"
      by (simp_all add: scaled_size_def MAX_SIZE_def)
    with scaled_side_canvas [OF le pos] show "canvas_width ?r = 600 \<and> canvas_height ?r \<le> 600 \<and>
              \<bar>real (canvas_height ?r) - real h * 600 / real w\<bar> < 1 + 1 / 2 ^ 40"
      by simp
  qed
  have portrait: "600 < h \<and> w \<le> h \<longrightarrow>
              canvas_height ?r = 600 \<and> canvas_width ?r \<le> 600 \<and>
              \<bar>real (canvas_width ?r) - real w * 600 / real h\<bar> < 1 + 1 / 2 ^ 40"
  proof
    assume a: "600 < h \<and> w \<le> h"
    then have le: "w \<le> h" and pos: "0 < h" by simp_all
    from a sz have "height = 600" and "width = double_mul (real w) (double_div 600 (real h))"
      by (simp_all add: scaled_size_def MAX_SIZE_def)
    with scaled_side_canvas [OF le pos] show "canvas_height ?r = 600 \<and> canvas_width ?r \<le> 600 \<and>
              \<bar>real (canvas_width ?r) - real w * 600 / real h\<bar> < 1 + 1 / 2 ^ 40"
      by simp
  qed
  have enc: "0 < canvas_width ?r \<and> 0 < canvas_height ?r \<longrightarrow>
              dataURL ?r = Encoded ''image/jpeg'' (1 / 2)"
    by (simp add: toDataURL_def)
  have empty: "canvas_width ?r = 0 \<or> canvas_height ?r = 0 \<longrightarrow> dataURL ?r = NoPixels"
    by (auto simp: toDataURL_def)
  have src: "img_src ?r = input" by simp
  show ?thesis
    by (rule exI [of _ ?r]) (intro conjI run src small landscape portrait enc empty)
qed

text \<open>
  The claim as stated, that the result is re-encoded at quality 0.5 in all cases, fails for
  an image more than 600 times as high as wide: for 1 by 601 pixels the width
  \<open>1 * (600 / 601)\<close> truncates to 0 and nothing is encoded.
\<close>

theorem compressImage_no_pixels_counterexample:
  "map_option canvas_width (compressImage (\<lambda>t. Some (1, 601)) True ''data:image/png;base64,AAAA'') =
     Some 0 \<and>
   map_option canvas_height (compressImage (\<lambda>t. Some (1, 601)) True ''data:image/png;base64,AAAA'') =
     Some 600 \<and>
   map_option dataURL (compressImage (\<lambda>t. Some (1, 601)) True ''data:image/png;base64,AAAA'') =
     Some NoPixels"
proof -
  let ?x = "double_mul (real (1::nat)) (double_div 600 (real (601::nat)))"
  have "\<bar>?x - real (1::nat) * 600 / real (601::nat)\<bar> \<le> 1 / 2 ^ 40"
    by (rule scaled_side_close) simp_all
  then have b: "\<bar>?x - 600 / 601\<bar> \<le> 1 / 2 ^ 40" by simp
  have c: "(600::real) / 601 + 1 / 2 ^ 40 < 1" by simp
  from b c have lt: "?x < 1" by linarith
  have ge: "0 \<le> ?x" by (rule scaled_side_close) simp_all
  from lt ge have fl: "\<lfloor>?x\<rfloor> = 0" by linarith
  have cw: "nat \<lfloor>?x\<rfloor> = 0" by (simp only: fl nat_0)
  have sz: "scaled_size 1 601 = (?x, real (600::nat))"
    by (simp add: scaled_size_def MAX_SIZE_def)
  have run: "compressImage (\<lambda>t. Some (1, 601)) True ''data:image/png;base64,AAAA'' =
      Some \<lparr> img_src = ''data:image/png;base64,AAAA'',
              canvas_width = nat \<lfloor>?x\<rfloor>,
              canvas_height = nat \<lfloor>real (600::nat)\<rfloor>,
              drawImage = (if True then Some (?x, real (600::nat)) else None),
              dataURL = toDataURL (nat \<lfloor>?x\<rfloor>) (nat \<lfloor>real (600::nat)\<rfloor>) ''image/jpeg'' (1 / 2) \<rparr>"
    unfolding compressImage_def by (simp only: sz option.case prod.case Let_def)
  show ?thesis
    unfolding run cw by (simp add: toDataURL_def)
qed


text \<open>Doubles are fixed by the rounding; two of them, for the sample image below.\<close>

lemma round_double_exact:
  assumes "x \<noteq> 0" and "x / 2 powr (of_int (\<lfloor>log 2 \<bar>x\<bar>\<rfloor> - 52)) = of_int m"
  shows "round_double x = x"
proof -
  define ulp :: real where "ulp = 2 powr (of_int (\<lfloor>log 2 \<bar>x\<bar>\<rfloor> - 52))"
  have pos: "ulp \<noteq> 0" by (simp add: ulp_def)
  have m: "x / ulp = of_int m" using assms(2) by (simp only: ulp_def)
  have "round_half_even (of_int m) = m"
    by (simp add: round_half_even_def)
  moreover have "round_double x = of_int (round_half_even (x / ulp)) * ulp"
    by (simp only: round_double_def Let_def ulp_def assms(1) if_False)
  ultimately have "round_double x = of_int m * ulp"
    by (simp only: m)
  also have "\<dots> = x" using pos m [symmetric] by simp
  finally show ?thesis .
qed

lemma round_double_half: "round_double (1 / 2) = 1 / 2"
proof -
  have k: "\<lfloor>log 2 \<bar>1 / 2 :: real\<bar>\<rfloor> = - 1"
    using floor_log_eq_powr_iff [of "1 / 2 :: real" 2 "- 1"] by (simp add: powr_minus)
  have p: "(2::real) powr (- 53) = 1 / 2 ^ 53"
    by (simp only: powr_minus powr_numeral inverse_eq_divide)
  have "(1 / 2 :: real) / 2 powr (of_int (\<lfloor>log 2 \<bar>1 / 2 :: real\<bar>\<rfloor> - 52)) = of_int (2 ^ 52)"
    unfolding k by (simp add: p)
  then show ?thesis by (rule round_double_exact [rotated]) simp
qed

lemma round_double_300: "round_double 300 = 300"
proof -
  have k: "\<lfloor>log 2 \<bar>300 :: real\<bar>\<rfloor> = 8"
    using floor_log_eq_powr_iff [of "300 :: real" 2 8] by simp
  have p: "(2::real) powr (- 44) = 1 / 2 ^ 44"
    by (simp only: powr_minus powr_numeral inverse_eq_divide)
  have "(300 :: real) / 2 powr (of_int (\<lfloor>log 2 \<bar>300 :: real\<bar>\<rfloor> - 52)) = of_int (300 * 2 ^ 44)"
    unfolding k by (simp add: p)
  then show ?thesis by (rule round_double_exact [rotated]) simp
qed

lemma scaled_size_1200_600: "scaled_size 1200 600 = (600, 300)"
  by (simp add: scaled_size_def MAX_SIZE_def double_div_def double_mul_def
      round_double_half round_double_300)

theorem compressImage_clamps_longer_side_witness:
  "(\<lambda>t::string. Some (1200::nat, 600::nat)) ''data:image/png;base64,AAAA'' = Some (1200, 600) \<and>
   (600::nat) < 1200 \<and>
   map_option canvas_width
     (compressImage (\<lambda>t. Some (1200, 600)) True ''data:image/png;base64,AAAA'') = Some 600 \<and>
   map_option canvas_height
     (compressImage (\<lambda>t. Some (1200, 600)) True ''data:image/png;base64,AAAA'') = Some 300 \<and>
   map_option dataURL
     (compressImage (\<lambda>t. Some (1200, 600)) True ''data:image/png;base64,AAAA'') =
     Some (Encoded ''image/jpeg'' (1 / 2))"
proof -
  have h: "(\<lambda>t::string. Some (1200::nat, 600::nat)) ''data:image/png;base64,AAAA'' = Some (1200, 600)"
    by simp
  have g: "(600::nat) < 1200" "(600::nat) < 1200 \<and> (600::nat) < 1200" by simp_all
  from compressImage_clamps_longer_side [where decode = "\<lambda>t. Some (1200, 600)" and has_ctx = True
      and input = "''data:image/png;base64,AAAA''" and w = 1200 and h = 600, OF h]
  obtain r where run: "compressImage (\<lambda>t. Some (1200, 600)) True ''data:image/png;base64,AAAA'' = Some r"
    and land: "600 < (1200::nat) \<and> (600::nat) < 1200 \<longrightarrow>
                 canvas_width r = 600 \<and> canvas_height r \<le> 600 \<and>
                 \<bar>real (canvas_height r) - real (600::nat) * 600 / real (1200::nat)\<bar> < 1 + 1 / 2 ^ 40"
    and enc: "0 < canvas_width r \<and> 0 < canvas_height r \<longrightarrow> dataURL r = Encoded ''image/jpeg'' (1 / 2)"
    by blast
  from land g have w: "canvas_width r = 600" by blast
  have "canvas_height r = 300"
    using run by (auto simp: compressImage_def scaled_size_1200_600)
  with w enc have e: "dataURL r = Encoded ''image/jpeg'' (1 / 2)" by simp
  from run w \<open>canvas_height r = 300\<close> e h g(1) show ?thesis by simp
qed

end
